theory Spec2Isabelle
  imports Main
begin

section \<open>Python values of brute.py\<close>

text \<open>
  The exceptions the module can raise, as values. \<open>RetryError\<close> is what the
  retry decorator of \<open>get_wildcard_record\<close> raises after its last attempt.
\<close>

datatype error = TypeError | AttributeError | ValueError | ZeroDivisionError | RetryError

text \<open>
  How a call ends: it returns a value, it raises an exception, or it calls \<open>exit\<close>
  (Python's SystemExit, which no \<open>except Exception\<close> clause catches).
\<close>

datatype 'a outcome = Returned 'a | Raised error | Exited int

text \<open>
  The two values of the settings module that the classifier reads. The settings module is
  not part of brute.py, so they are parameters.
\<close>

record settings =
  brute_ip_blacklist :: "string set"
  ip_appear_maximum :: int

section \<open>The classifier\<close>

text \<open>
  \<open>check_by_compare\<close>, lines 488-503. Python's \<open>%\<close> on integers with a positive
  divisor is \<open>mod\<close> on \<open>int\<close>.
\<close>

definition check_by_compare :: "string \<Rightarrow> int \<Rightarrow> string list \<Rightarrow> int \<Rightarrow> bool" where
  "check_by_compare ip ttl wc_ips wc_ttl =
     (if ip \<notin> set wc_ips then False
      else if ttl \<noteq> wc_ttl \<and> ttl mod 60 = 0 \<and> wc_ttl mod 60 = 0 then False
      else True)"

definition check_ip_times :: "settings \<Rightarrow> int \<Rightarrow> bool" where
  "check_ip_times cfg num = (if num > ip_appear_maximum cfg then True else False)"

text \<open>
  \<open>is_valid_subdomain\<close>, lines 518-527. The wildcard record is an address collection
  and a TTL that is an integer or \<open>None\<close> (the collector can return \<open>None\<close>);
  \<open>all([wc_ips, wc_ttl])\<close> holds when the collection is not empty and the TTL is
  neither \<open>None\<close> nor 0. The frequency \<open>num\<close> (\<open>times\<close> in the source) is what
  \<open>ip_times.get(ip)\<close> gave: \<open>None\<close> for an address the table lacks, and then
  \<open>times > maximum\<close> raises TypeError.
\<close>

definition is_valid_subdomain ::
  "settings \<Rightarrow> string \<Rightarrow> int \<Rightarrow> int option \<Rightarrow> string list \<Rightarrow> int option
     \<Rightarrow> error + (int \<times> string)" where
  "is_valid_subdomain cfg ip ttl num wc_ips wc_ttl =
     (if ip \<in> brute_ip_blacklist cfg then Inr (0, ''IP blacklist'')
      else if (case wc_ttl of
                 None \<Rightarrow> False
               | Some t \<Rightarrow> wc_ips \<noteq> [] \<and> t \<noteq> 0 \<and> check_by_compare ip ttl wc_ips t)
        then Inr (0, ''IP wildcard'')
      else (case num of
              None \<Rightarrow> Inl TypeError
            | Some n \<Rightarrow> if check_ip_times cfg n then Inr (0, ''IP exceeded'')
                        else Inr (1, ''OK'')))"

section \<open>The wildcard record collector\<close>

text \<open>
  What one call \<open>resolver.query(domain, 'A')\<close> can do: raise \<open>Timeout\<close>; raise one of
  NXDOMAIN, YXDOMAIN, NoAnswer, NoNameservers; raise any other exception; or return an
  answer, whose \<open>rrset\<close> is \<open>None\<close> or holds the addresses of its items and a TTL.
\<close>

datatype query = QTimeout | QNegative | QUnexpected | QAnswer "(string list \<times> int) option"

text \<open>
  The body of \<open>get_wildcard_record\<close>, lines 266-293, for one attempt: \<open>TryAgain\<close> is
  raised on a timeout, \<open>(None, None)\<close> is returned for no data, \<open>exit(1)\<close> is called
  on an unexpected error, and the address set (a list without duplicates) and the TTL are
  returned otherwise.
\<close>

datatype attempt = TryAgain | Finished "(string list option \<times> int option) outcome"

fun get_wildcard_record_body :: "query \<Rightarrow> attempt" where
  "get_wildcard_record_body QTimeout = TryAgain"
| "get_wildcard_record_body QNegative = Finished (Returned (None, None))"
| "get_wildcard_record_body QUnexpected = Finished (Exited 1)"
| "get_wildcard_record_body (QAnswer None) = Finished (Returned (None, None))"
| "get_wildcard_record_body (QAnswer (Some (addrs, t))) =
     Finished (Returned (Some (remdups addrs), Some t))"

text \<open>
  \<open>get_wildcard_record\<close> under its decorator \<open>tenacity.retry(stop=stop_after_attempt(2))\<close>:
  a \<open>TryAgain\<close> of the first attempt runs the body once more, a \<open>TryAgain\<close> of the
  second attempt raises \<open>RetryError\<close>; SystemExit is not retried. The argument is the
  list of what the resolver does on its next queries; the result holds the rest of that
  list, and is \<open>None\<close> when the list ends before the call does.
\<close>

fun get_wildcard_record ::
  "query list \<Rightarrow> ((string list option \<times> int option) outcome \<times> query list) option" where
  "get_wildcard_record [] = None"
| "get_wildcard_record (q # qs) =
     (case get_wildcard_record_body q of
        Finished r \<Rightarrow> Some (r, qs)
      | TryAgain \<Rightarrow>
          (case qs of
             [] \<Rightarrow> None
           | q' # qs' \<Rightarrow>
               (case get_wildcard_record_body q' of
                  Finished r \<Rightarrow> Some (r, qs')
                | TryAgain \<Rightarrow> Some (Raised RetryError, qs'))))"

text \<open>
  The local variables of \<open>collect_wildcard_record\<close>, lines 304-308. Sets are lists
  without duplicates; the dictionary \<open>ips_stat\<close> is an association list in insertion
  order.
\<close>

record collector =
  c_ips :: "string list"
  c_ttl :: "int option"
  c_ttls_check :: "int option list"
  c_ips_stat :: "(string \<times> nat) list"
  c_ips_check :: "string list option list"

text \<open>\<open>any(ips_check)\<close>: an entry is true when it is a non-empty set.\<close>

definition any_ips :: "string list option list \<Rightarrow> bool" where
  "any_ips xs = (\<exists>x \<in> set xs. x \<noteq> None \<and> x \<noteq> Some [])"

text \<open>\<open>ips.update(ip)\<close> on duplicate-free lists.\<close>

definition set_update :: "string list \<Rightarrow> string list \<Rightarrow> string list" where
  "set_update ips ip = ips @ filter (\<lambda>a. a \<notin> set ips) ip"

text \<open>\<open>count = ips_stat.setdefault(addr, 0); ips_stat[addr] = count + 1\<close>, lines 338-339.\<close>

fun stat_addr :: "string \<Rightarrow> (string \<times> nat) list \<Rightarrow> (string \<times> nat) list" where
  "stat_addr addr [] = [(addr, 1)]"
| "stat_addr addr ((k, v) # kvs) =
     (if k = addr then (k, v + 1) # kvs else (k, v) # stat_addr addr kvs)"

text \<open>The addresses seen at least twice, lines 341-344.\<close>

definition twice_seen :: "(string \<times> nat) list \<Rightarrow> string list" where
  "twice_seen stat = map fst (filter (\<lambda>(addr, n). n \<ge> 2) stat)"

text \<open>
  One pass through the loop body after \<open>get_wildcard_record\<close> has returned
  \<open>(ip, ttl)\<close>, lines 320-347: the loop is left with a result (\<open>break\<close>, or the
  ZeroDivisionError of \<open>len(addrs) / len(ips)\<close> on an empty set), or goes on with new
  locals. The test \<open>len(addrs) / len(ips) >= 0.8\<close> on doubles is
  \<open>4 * len(ips) \<le> 5 * len(addrs)\<close>: the quotient of two counts below \<open>10^15\<close>
  rounds to a double below the double 0.8 exactly when it is below four fifths.
\<close>

datatype step = Break "(string list \<times> int option) outcome" | Continue collector

definition loop_body :: "collector \<Rightarrow> string list option \<Rightarrow> int option \<Rightarrow> step" where
  "loop_body st ip t =
     (let ips_check1 = c_ips_check st @ [ip];
          ttls_check1 = c_ttls_check st @ [t]
      in if length ips_check1 = 5 \<and> \<not> any_ips ips_check1
         then Break (Returned (c_ips st, t))
         else
           let ips_check2 = (if length ips_check1 = 5 then [] else ips_check1)
           in if length ttls_check1 = 5 \<and> card (set ttls_check1) = 5
              then Break (Returned ([], Some 0))
              else
                (case ip of
                   None \<Rightarrow>
                     Continue (st\<lparr>c_ttl := t, c_ttls_check := ttls_check1,
                                  c_ips_check := ips_check2\<rparr>)
                 | Some addrs \<Rightarrow>
                     let ips1 = set_update (c_ips st) addrs;
                         stat1 = fold stat_addr addrs (c_ips_stat st)
                     in if length ips1 = 0 then Break (Raised ZeroDivisionError)
                        else if 4 * length ips1 \<le> 5 * length (twice_seen stat1)
                        then Break (Returned (ips1, t))
                        else Continue \<lparr>c_ips = ips1, c_ttl = t, c_ttls_check = ttls_check1,
                                        c_ips_stat = stat1, c_ips_check = ips_check2\<rparr>))"

lemma get_wildcard_record_shorter:
  "get_wildcard_record qs = Some (r, qs') \<Longrightarrow> length qs' < length qs"
  by (cases qs) (auto split: attempt.splits list.splits)

text \<open>
  The loop \<open>while True\<close>, lines 309-347. An exception of \<open>get_wildcard_record\<close> is
  caught and the loop goes on with a new query (\<open>except Exception\<close>, line 314); an exit
  is not caught. The result is \<open>None\<close> when the list of resolver behaviours ends before
  the loop does.
\<close>

function collect_loop ::
  "collector \<Rightarrow> query list \<Rightarrow> (string list \<times> int option) outcome option" where
  "collect_loop st qs =
     (case get_wildcard_record qs of
        None \<Rightarrow> None
      | Some (r, qs') \<Rightarrow>
          (case r of
             Raised e \<Rightarrow> collect_loop st qs'
           | Exited code \<Rightarrow> Some (Exited code)
           | Returned (ip, t) \<Rightarrow>
               (case loop_body st ip t of
                  Break res \<Rightarrow> Some res
                | Continue st' \<Rightarrow> collect_loop st' qs')))"
  by pat_completeness auto
termination
  by (relation "measure (\<lambda>(st, qs). length qs)") (auto dest: get_wildcard_record_shorter)

declare collect_loop.simps [simp del]

text \<open>\<open>collect_wildcard_record\<close>, lines 296-349; \<open>list(), int()\<close> is \<open>([], 0)\<close>.\<close>

definition collect_wildcard_record ::
  "string list \<Rightarrow> query list \<Rightarrow> (string list \<times> int option) outcome option" where
  "collect_wildcard_record authoritative_ns qs =
     (if authoritative_ns = [] then Some (Returned ([], Some 0))
      else collect_loop \<lparr>c_ips = [], c_ttl = Some 0, c_ttls_check = [], c_ips_stat = [],
                         c_ips_check = []\<rparr> qs)"


section \<open>Processing the resolver's output\<close>

text \<open>
  One answer of a resolution record, and the record itself, as the resolver writes them
  (one JSON object per line). An answer carries its four fields. A field of the record may
  be absent: \<open>items.get\<close> then gives \<open>None\<close>. \<open>i_data\<close> is \<open>None\<close> when the record
  has no \<open>data\<close>, \<open>Some None\<close> when its \<open>data\<close> has no \<open>answers\<close>, and holds the
  answers otherwise. JSON values of other shapes (a line that is not an object, a field of
  another type) are outside this model.
\<close>

record answer =
  a_type :: string
  a_name :: string
  a_ttl :: int
  a_data :: string

record items =
  i_name :: "string option"
  i_status :: "string option"
  i_resolver :: "string option"
  i_data :: "answer list option option"

text \<open>The dictionary \<open>info\<close> that \<open>gen_result_infos\<close> stores for an accepted name.\<close>

record info =
  info_resolve :: int
  info_reason :: "string option"
  info_ttl :: "int list"
  info_cname :: "string list"
  info_ip :: "string list"
  info_public :: "bool list"
  info_times :: "int option list"
  info_resolver :: "string option"

text \<open>The local variables of \<open>gen_result_infos\<close> that its loop changes, lines 380-391.\<close>

record answer_vars =
  v_reason :: "string option"
  v_cname :: "string list"
  v_ips :: "string list"
  v_public :: "bool list"
  v_times :: "int option list"
  v_ttls :: "int list"
  v_is_valid_flags :: "int list"
  v_have_a_record :: bool

text \<open>
  The loop over the answers, lines 392-408. \<open>utils.ip_is_public\<close> is not part of
  brute.py and is the parameter \<open>ip_is_public\<close>; \<open>ip_times\<close> is the frequency table.
\<close>

fun answers_loop ::
  "(string \<Rightarrow> bool) \<Rightarrow> settings \<Rightarrow> (string \<rightharpoonup> int) \<Rightarrow> string list \<Rightarrow> int option
     \<Rightarrow> answer list \<Rightarrow> answer_vars \<Rightarrow> error + answer_vars" where
  "answers_loop ip_is_public cfg ip_times wc_ips wc_ttl [] v = Inr v"
| "answers_loop ip_is_public cfg ip_times wc_ips wc_ttl (a # as) v =
     (if a_type a \<noteq> ''A'' then answers_loop ip_is_public cfg ip_times wc_ips wc_ttl as v
      else
        (case is_valid_subdomain cfg (a_data a) (a_ttl a) (ip_times (a_data a)) wc_ips wc_ttl of
           Inl e \<Rightarrow> Inl e
         | Inr (isvalid, reason) \<Rightarrow>
             answers_loop ip_is_public cfg ip_times wc_ips wc_ttl as
               \<lparr>v_reason = Some reason,
                v_cname = v_cname v @ [butlast (a_name a)],
                v_ips = v_ips v @ [a_data a],
                v_public = v_public v @ [ip_is_public (a_data a)],
                v_times = v_times v @ [ip_times (a_data a)],
                v_ttls = v_ttls v @ [a_ttl a],
                v_is_valid_flags = v_is_valid_flags v @ [isvalid],
                v_have_a_record = True\<rparr>))"

text \<open>
  \<open>gen_result_infos\<close>, lines 378-423. \<open>items.get('name')[:-1]\<close> raises TypeError on
  \<open>None\<close>, \<open>data.get\<close> raises AttributeError on \<open>None\<close>, and the loop over
  \<open>None\<close> raises TypeError. \<open>all(is_valid_flags)\<close> holds when no flag is 0.
\<close>

definition gen_result_infos ::
  "(string \<Rightarrow> bool) \<Rightarrow> settings \<Rightarrow> items \<Rightarrow> (string \<rightharpoonup> info) \<Rightarrow> string list
     \<Rightarrow> (string \<rightharpoonup> int) \<Rightarrow> string list \<Rightarrow> int option
     \<Rightarrow> error + ((string \<rightharpoonup> info) \<times> string list)" where
  "gen_result_infos ip_is_public cfg its infos subdomains ip_times wc_ips wc_ttl =
     (case i_name its of
        None \<Rightarrow> Inl TypeError
      | Some n \<Rightarrow>
          (case i_data its of
             None \<Rightarrow> Inl AttributeError
           | Some None \<Rightarrow> Inl TypeError
           | Some (Some answers) \<Rightarrow>
               (case answers_loop ip_is_public cfg ip_times wc_ips wc_ttl answers
                       \<lparr>v_reason = i_status its, v_cname = [], v_ips = [], v_public = [],
                        v_times = [], v_ttls = [], v_is_valid_flags = [],
                        v_have_a_record = False\<rparr> of
                  Inl e \<Rightarrow> Inl e
                | Inr v \<Rightarrow>
                    if v_have_a_record v \<and> list_all (\<lambda>flag. flag \<noteq> 0) (v_is_valid_flags v)
                    then Inr (infos(butlast n \<mapsto>
                                 \<lparr>info_resolve = 1, info_reason = v_reason v,
                                  info_ttl = v_ttls v, info_cname = v_cname v,
                                  info_ip = v_ips v, info_public = v_public v,
                                  info_times = v_times v, info_resolver = i_resolver its\<rparr>),
                              subdomains @ [butlast n])
                    else Inr (infos, subdomains))))"

text \<open>
  \<open>stat_ip_times\<close>, lines 426-454. A file is the list of its lines; a line is
  \<open>None\<close> when \<open>json.loads\<close> raises on it and the parsed record otherwise.
  \<open>'answers' not in data\<close> raises TypeError when \<open>data\<close> is \<open>None\<close>.
\<close>

fun stat_answers :: "answer list \<Rightarrow> (string \<rightharpoonup> int) \<Rightarrow> (string \<rightharpoonup> int)" where
  "stat_answers [] tbl = tbl"
| "stat_answers (a # as) tbl =
     stat_answers as
       (if a_type a = ''A''
        then tbl(a_data a \<mapsto> (case tbl (a_data a) of None \<Rightarrow> 0 | Some v \<Rightarrow> v) + 1)
        else tbl)"

fun stat_lines :: "items option list \<Rightarrow> (string \<rightharpoonup> int) \<Rightarrow> error + (string \<rightharpoonup> int)" where
  "stat_lines [] tbl = Inr tbl"
| "stat_lines (None # ls) tbl = stat_lines ls tbl"
| "stat_lines (Some its # ls) tbl =
     (if i_status its \<noteq> Some ''NOERROR'' then stat_lines ls tbl
      else
        (case i_data its of
           None \<Rightarrow> Inl TypeError
         | Some None \<Rightarrow> stat_lines ls tbl
         | Some (Some answers) \<Rightarrow> stat_lines ls (stat_answers answers tbl)))"

fun stat_files ::
  "items option list list \<Rightarrow> (string \<rightharpoonup> int) \<Rightarrow> error + (string \<rightharpoonup> int)" where
  "stat_files [] tbl = Inr tbl"
| "stat_files (f # fs) tbl =
     (case stat_lines f tbl of Inl e \<Rightarrow> Inl e | Inr tbl' \<Rightarrow> stat_files fs tbl')"

definition stat_ip_times :: "items option list list \<Rightarrow> error + (string \<rightharpoonup> int)" where
  "stat_ip_times result_paths = stat_files result_paths Map.empty"

text \<open>\<open>deal_output\<close>, lines 457-485.\<close>

fun deal_lines ::
  "(string \<Rightarrow> bool) \<Rightarrow> settings \<Rightarrow> (string \<rightharpoonup> int) \<Rightarrow> string list \<Rightarrow> int option
     \<Rightarrow> items option list \<Rightarrow> (string \<rightharpoonup> info) \<Rightarrow> string list
     \<Rightarrow> error + ((string \<rightharpoonup> info) \<times> string list)" where
  "deal_lines ip_is_public cfg ip_times wc_ips wc_ttl [] infos subdomains =
     Inr (infos, subdomains)"
| "deal_lines ip_is_public cfg ip_times wc_ips wc_ttl (None # ls) infos subdomains =
     deal_lines ip_is_public cfg ip_times wc_ips wc_ttl ls infos subdomains"
| "deal_lines ip_is_public cfg ip_times wc_ips wc_ttl (Some its # ls) infos subdomains =
     (case i_name its of
        None \<Rightarrow> Inl TypeError
      | Some n \<Rightarrow>
          if i_status its \<noteq> Some ''NOERROR''
          then deal_lines ip_is_public cfg ip_times wc_ips wc_ttl ls infos subdomains
          else
            (case i_data its of
               None \<Rightarrow> Inl TypeError
             | Some None \<Rightarrow>
                 deal_lines ip_is_public cfg ip_times wc_ips wc_ttl ls infos subdomains
             | Some (Some answers) \<Rightarrow>
                 (case gen_result_infos ip_is_public cfg its infos subdomains ip_times
                         wc_ips wc_ttl of
                    Inl e \<Rightarrow> Inl e
                  | Inr (infos', subdomains') \<Rightarrow>
                      deal_lines ip_is_public cfg ip_times wc_ips wc_ttl ls infos'
                        subdomains')))"

fun deal_files ::
  "(string \<Rightarrow> bool) \<Rightarrow> settings \<Rightarrow> (string \<rightharpoonup> int) \<Rightarrow> string list \<Rightarrow> int option
     \<Rightarrow> items option list list \<Rightarrow> (string \<rightharpoonup> info) \<Rightarrow> string list
     \<Rightarrow> error + ((string \<rightharpoonup> info) \<times> string list)" where
  "deal_files ip_is_public cfg ip_times wc_ips wc_ttl [] infos subdomains =
     Inr (infos, subdomains)"
| "deal_files ip_is_public cfg ip_times wc_ips wc_ttl (f # fs) infos subdomains =
     (case deal_lines ip_is_public cfg ip_times wc_ips wc_ttl f infos subdomains of
        Inl e \<Rightarrow> Inl e
      | Inr (infos', subdomains') \<Rightarrow>
          deal_files ip_is_public cfg ip_times wc_ips wc_ttl fs infos' subdomains')"

definition deal_output ::
  "(string \<Rightarrow> bool) \<Rightarrow> settings \<Rightarrow> items option list list \<Rightarrow> (string \<rightharpoonup> int)
     \<Rightarrow> string list \<Rightarrow> int option \<Rightarrow> error + ((string \<rightharpoonup> info) \<times> string list)" where
  "deal_output ip_is_public cfg output_paths ip_times wildcard_ips wildcard_ttl =
     deal_files ip_is_public cfg ip_times wildcard_ips wildcard_ttl output_paths Map.empty []"


section \<open>Wildcard detection\<close>

text \<open>
  \<open>gen_random_subdomains\<close>, lines 42-55. \<open>tokens\<close> are the values that
  \<open>secrets.token_hex(4)\<close> returns one after the other; the result is a set, a list
  without duplicates.
\<close>

definition gen_random_subdomains :: "string \<Rightarrow> int \<Rightarrow> string list \<Rightarrow> string list" where
  "gen_random_subdomains domain count tokens =
     (if count < 1 then []
      else remdups (map (\<lambda>token. token @ ''.'' @ domain) (take (nat count) tokens)))"

text \<open>
  \<open>query_a_record\<close>, lines 58-78, on what the resolver does for the name: any exception
  and an answer without \<open>rrset\<close> give \<open>False\<close>.
\<close>

fun query_a_record :: "query \<Rightarrow> bool" where
  "query_a_record (QAnswer (Some rrset)) = True"
| "query_a_record q = False"

definition all_resolve_success :: "(string \<Rightarrow> query) \<Rightarrow> string list \<Rightarrow> bool" where
  "all_resolve_success dns subdomains = list_all (\<lambda>subdomain. query_a_record (dns subdomain)) subdomains"

text \<open>
  What \<open>utils.get_url_resp\<close> gives for a URL: \<open>None\<close>, or a response with its
  \<open>ok\<close> flag (the truth value of a response object) and its text.
\<close>

record response =
  resp_ok :: bool
  resp_text :: string

text \<open>
  \<open>all_request_success\<close>, lines 95-111. The list \<open>result\<close> holds the text of a
  response that is true, and the response itself, a false value (here \<open>None\<close>),
  otherwise. \<open>all(result)\<close> holds when every entry is a non-empty text.
\<close>

definition request_entry :: "(string \<Rightarrow> response option) \<Rightarrow> string \<Rightarrow> string option" where
  "request_entry http subdomain =
     (case http (''http://'' @ subdomain) of
        None \<Rightarrow> None
      | Some resp \<Rightarrow> if resp_ok resp then Some (resp_text resp) else None)"

definition all_request_success ::
  "(string \<Rightarrow> response option) \<Rightarrow> string list \<Rightarrow> bool \<times> string option list" where
  "all_request_success http subdomains =
     (let result = map (request_entry http) subdomains
      in (list_all (\<lambda>entry. entry \<noteq> None \<and> entry \<noteq> Some []) result, result))"

text \<open>
  \<open>any_similar_html\<close>, lines 114-127: unpacking a list that has not three entries
  raises ValueError. \<open>similarity.is_similar\<close> is the parameter \<open>is_similar\<close>.
\<close>

fun any_similar_html ::
  "(string option \<Rightarrow> string option \<Rightarrow> bool) \<Rightarrow> string option list \<Rightarrow> error + bool" where
  "any_similar_html is_similar [html_doc1, html_doc2, html_doc3] =
     (if is_similar html_doc1 html_doc2 then Inr True
      else if is_similar html_doc1 html_doc3 then Inr True
      else if is_similar html_doc2 html_doc3 then Inr True
      else Inr False)"
| "any_similar_html is_similar resp_list = Inl ValueError"

text \<open>\<open>detect_wildcard\<close>, lines 130-144.\<close>

definition detect_wildcard ::
  "(string \<Rightarrow> query) \<Rightarrow> (string \<Rightarrow> response option) \<Rightarrow> (string option \<Rightarrow> string option \<Rightarrow> bool)
     \<Rightarrow> string list \<Rightarrow> string \<Rightarrow> error + bool" where
  "detect_wildcard dns http is_similar tokens domain =
     (let random_subdomains = gen_random_subdomains domain 3 tokens
      in if \<not> all_resolve_success dns random_subdomains then Inr False
         else
           (case all_request_success http random_subdomains of
              (is_all_success, all_request_resp) \<Rightarrow>
                if \<not> is_all_success then Inr True
                else any_similar_html is_similar all_request_resp))"

section \<open>Dictionary generation\<close>

text \<open>
  Python's string methods on ASCII text: \<open>lower\<close>, \<open>isalnum\<close>, \<open>strip\<close> and
  \<open>replace('*', word)\<close>. Characters outside ASCII are outside this model.
\<close>

definition lower_char :: "char \<Rightarrow> char" where
  "lower_char c =
     (if (65::nat) \<le> of_char c \<and> of_char c \<le> (90::nat) then char_of (of_char c + (32::nat))
      else c)"

definition py_lower :: "string \<Rightarrow> string" where
  "py_lower s = map lower_char s"

definition alnum_char :: "char \<Rightarrow> bool" where
  "alnum_char c =
     (let n = (of_char c :: nat)
      in (48 \<le> n \<and> n \<le> 57) \<or> (65 \<le> n \<and> n \<le> 90) \<or> (97 \<le> n \<and> n \<le> 122))"

definition py_isalnum :: "string \<Rightarrow> bool" where
  "py_isalnum s = (s \<noteq> [] \<and> list_all alnum_char s)"

definition space_char :: "char \<Rightarrow> bool" where
  "space_char c =
     (let n = (of_char c :: nat) in (9 \<le> n \<and> n \<le> 13) \<or> (28 \<le> n \<and> n \<le> 32))"

definition py_strip :: "string \<Rightarrow> string" where
  "py_strip s = rev (dropWhile space_char (rev (dropWhile space_char s)))"

definition replace_star :: "string \<Rightarrow> string \<Rightarrow> string" where
  "replace_star expression word =
     concat (map (\<lambda>c. if c = CHR ''*'' then word else [c]) expression)"

text \<open>
  \<open>gen_subdomains\<close>, lines 156-184, on the lines of the word list. \<open>utils.is_subname\<close>
  is the parameter \<open>is_subname\<close>; \<open>utils.check_random_subdomain\<close> only logs. The set
  \<open>subdomains\<close> is a list without duplicates.
\<close>

fun gen_subdomains_loop ::
  "(string \<Rightarrow> bool) \<Rightarrow> string \<Rightarrow> string list \<Rightarrow> string list \<Rightarrow> string list" where
  "gen_subdomains_loop is_subname expression [] subdomains = subdomains"
| "gen_subdomains_loop is_subname expression (line # lines) subdomains =
     (let word = py_lower (py_strip line)
      in if length word = 0 then gen_subdomains_loop is_subname expression lines subdomains
         else if \<not> is_subname word
         then gen_subdomains_loop is_subname expression lines subdomains
         else
           let word1 = (if take 1 word = ''.'' then drop 1 word else word);
               word2 = (if word1 \<noteq> [] \<and> last word1 = CHR ''.'' then butlast word1 else word1)
           in gen_subdomains_loop is_subname expression lines
                (List.insert (replace_star expression word2) subdomains))"

definition gen_subdomains :: "(string \<Rightarrow> bool) \<Rightarrow> string \<Rightarrow> string list \<Rightarrow> string list" where
  "gen_subdomains is_subname expression path = gen_subdomains_loop is_subname expression path []"

text \<open>
  \<open>gen_fuzz_subdomains\<close>, lines 187-213. \<open>exrex_generate\<close> is \<open>exrex.generate\<close>, the
  enumeration of the strings that match a rule, a parameter; the count of the rule is only
  logged. \<open>rule\<close> is \<open>None\<close> or a string, true when it is not empty;
  \<open>fuzzlist\<close> is \<open>None\<close> when the source's value is false (\<open>None\<close> or an empty
  path) and the lines of the file it names otherwise.
\<close>

fun fuzz_loop :: "string \<Rightarrow> string list \<Rightarrow> string list \<Rightarrow> string list" where
  "fuzz_loop expression [] subdomains = subdomains"
| "fuzz_loop expression (fuzz_string # rest) subdomains =
     (let fuzz_string1 = py_lower fuzz_string
      in if \<not> py_isalnum fuzz_string1 then fuzz_loop expression rest subdomains
         else fuzz_loop expression rest
                (List.insert (replace_star expression fuzz_string1) subdomains))"

definition gen_fuzz_subdomains ::
  "(string \<Rightarrow> string list) \<Rightarrow> (string \<Rightarrow> bool) \<Rightarrow> string \<Rightarrow> string option
     \<Rightarrow> string list option \<Rightarrow> string list" where
  "gen_fuzz_subdomains exrex_generate is_subname expression rule fuzzlist =
     (let subdomains1 =
            (case fuzzlist of
               None \<Rightarrow> []
             | Some path \<Rightarrow> fold List.insert (gen_subdomains is_subname expression path) [])
      in case rule of
           None \<Rightarrow> subdomains1
         | Some r \<Rightarrow>
             if r = [] then subdomains1
             else fuzz_loop expression (exrex_generate r) subdomains1)"


section \<open>The pipeline of one domain and the run over all domains\<close>

text \<open>
  What the outside world does for one domain: the addresses of its authoritative name
  servers (\<open>query_domain_ns_a\<close>), the random tokens, the resolver's and the web
  server's behaviour for the probes of the detector, the behaviour of the authoritative
  resolver on the collector's successive queries, and the output files that the bulk
  resolver writes for the generated dictionary.
\<close>

record domain_world =
  w_ns_ip_list :: "string list"
  w_tokens :: "string list"
  w_dns :: "string \<Rightarrow> query"
  w_http :: "string \<Rightarrow> response option"
  w_queries :: "query list"
  w_output_paths :: "items option list list"

text \<open>
  \<open>Brute.main\<close>, lines 666-724: wildcard detection, the collection of the wildcard
  record when the detection is positive, and the two passes over the resolver's output.
  Writing the dictionary and calling the bulk resolver are represented by the output files
  of the world, and are taken to succeed. An exception or an exit inside a step leaves
  \<open>main\<close> at once; the result is \<open>None\<close> when the collector does not come to an end
  on the world's queries.
\<close>

definition main ::
  "(string \<Rightarrow> bool) \<Rightarrow> (string option \<Rightarrow> string option \<Rightarrow> bool) \<Rightarrow> settings
     \<Rightarrow> domain_world \<Rightarrow> string \<Rightarrow> string list outcome option" where
  "main ip_is_public is_similar cfg w domain =
     (case detect_wildcard (w_dns w) (w_http w) is_similar (w_tokens w) domain of
        Inl e \<Rightarrow> Some (Raised e)
      | Inr enable_wildcard \<Rightarrow>
          (case (if enable_wildcard
                 then collect_wildcard_record (w_ns_ip_list w) (w_queries w)
                 else Some (Returned ([], Some 0))) of
             None \<Rightarrow> None
           | Some (Raised e) \<Rightarrow> Some (Raised e)
           | Some (Exited code) \<Rightarrow> Some (Exited code)
           | Some (Returned (wildcard_ips, wildcard_ttl)) \<Rightarrow>
               (case stat_ip_times (w_output_paths w) of
                  Inl e \<Rightarrow> Some (Raised e)
                | Inr ip_times \<Rightarrow>
                    (case deal_output ip_is_public cfg (w_output_paths w) ip_times
                            wildcard_ips wildcard_ttl of
                       Inl e \<Rightarrow> Some (Raised e)
                     | Inr (infos, subdomains) \<Rightarrow> Some (Returned subdomains)))))"

text \<open>
  The loop of \<open>Brute.run\<close> over the domains, lines 731-738, with a valid brute
  configuration and recursive brute switched off (its default): \<open>main\<close> is called for
  each domain in turn and its names are appended to \<open>all_subdomains\<close>. An exit or an
  exception of \<open>main\<close> is caught nowhere, so it ends the run. The model returns
  \<open>all_subdomains\<close> to make the names of the run visible.
\<close>

fun run_domains ::
  "(string \<Rightarrow> bool) \<Rightarrow> (string option \<Rightarrow> string option \<Rightarrow> bool) \<Rightarrow> settings
     \<Rightarrow> (string \<Rightarrow> domain_world) \<Rightarrow> string list \<Rightarrow> string list
     \<Rightarrow> string list outcome option" where
  "run_domains ip_is_public is_similar cfg world [] all_subdomains =
     Some (Returned all_subdomains)"
| "run_domains ip_is_public is_similar cfg world (domain # domains) all_subdomains =
     (case main ip_is_public is_similar cfg (world domain) domain of
        None \<Rightarrow> None
      | Some (Raised e) \<Rightarrow> Some (Raised e)
      | Some (Exited code) \<Rightarrow> Some (Exited code)
      | Some (Returned valid_subdomains) \<Rightarrow>
          run_domains ip_is_public is_similar cfg world domains
            (all_subdomains @ valid_subdomains))"

definition run ::
  "(string \<Rightarrow> bool) \<Rightarrow> (string option \<Rightarrow> string option \<Rightarrow> bool) \<Rightarrow> settings
     \<Rightarrow> (string \<Rightarrow> domain_world) \<Rightarrow> string list \<Rightarrow> string list outcome option" where
  "run ip_is_public is_similar cfg world domains =
     run_domains ip_is_public is_similar cfg world domains []"

section \<open>The convergence rule in the words of the specification\<close>

text \<open>
  The specification states the convergence rule on the history of the collection: the
  distinct addresses seen so far, the number of answers in which an address occurred, and
  the share of the addresses that occurred at least twice. These definitions follow those
  words, on the list of the answers received so far (\<open>None\<close> for an answer without
  data); they are compared below with what the loop computes from its locals.
\<close>

fun data_addresses :: "(string list \<times> int) option list \<Rightarrow> string list list" where
  "data_addresses [] = []"
| "data_addresses (None # outs) = data_addresses outs"
| "data_addresses (Some (addrs, t) # outs) = addrs # data_addresses outs"

definition addresses_seen :: "(string list \<times> int) option list \<Rightarrow> string list" where
  "addresses_seen outs = remdups (concat (data_addresses outs))"

definition occurrences :: "string \<Rightarrow> (string list \<times> int) option list \<Rightarrow> nat" where
  "occurrences a outs = length (filter (\<lambda>addrs. a \<in> set addrs) (data_addresses outs))"

definition seen_twice :: "(string list \<times> int) option list \<Rightarrow> string list" where
  "seen_twice outs = filter (\<lambda>a. 2 \<le> occurrences a outs) (addresses_seen outs)"

definition representative :: "(string list \<times> int) option list \<Rightarrow> bool" where
  "representative outs = (4 * length (addresses_seen outs) \<le> 5 * length (seen_twice outs))"

text \<open>
  The locals of the collector agree with a history: the set holds the addresses seen, the
  dictionary holds the number of occurrences of each of them, and \<open>ttls_check\<close> holds
  every TTL observed.
\<close>

definition tracks :: "collector \<Rightarrow> (string list \<times> int) option list \<Rightarrow> bool" where
  "tracks st outs =
     (distinct (c_ips st) \<and> set (c_ips st) = set (addresses_seen outs)
      \<and> distinct (map fst (c_ips_stat st))
      \<and> (\<forall>a. map_of (c_ips_stat st) a =
               (if occurrences a outs = 0 then None else Some (occurrences a outs)))
      \<and> c_ttls_check st = map (map_option snd) outs)"

section \<open>Example inputs\<close>

text \<open>
  A configuration, collaborators and two domains used to evaluate the definitions: at
  \<open>a.com\<close> every random name resolves and no page can be fetched, and the first query
  of the collector fails with an unexpected error; at \<open>b.com\<close> no random name resolves
  and the bulk resolver finds \<open>www.b.com\<close>.
\<close>

definition example_cfg :: settings where
  "example_cfg = \<lparr>brute_ip_blacklist = {''0.0.0.0'', ''0.0.0.1''}, ip_appear_maximum = 100\<rparr>"

definition example_is_public :: "string \<Rightarrow> bool" where
  "example_is_public ip = True"

definition example_is_similar :: "string option \<Rightarrow> string option \<Rightarrow> bool" where
  "example_is_similar html_doc1 html_doc2 = False"

definition wildcard_dns :: "string \<Rightarrow> query" where
  "wildcard_dns subdomain = QAnswer (Some ([''10.0.0.1''], 60))"

definition no_dns :: "string \<Rightarrow> query" where
  "no_dns subdomain = QNegative"

definition no_http :: "string \<Rightarrow> response option" where
  "no_http url = None"

definition example_world :: "string \<Rightarrow> domain_world" where
  "example_world domain =
     (if domain = ''a.com''
      then \<lparr>w_ns_ip_list = [''198.51.100.1''],
            w_tokens = [''0a0a0a0a'', ''0b0b0b0b'', ''0c0c0c0c''],
            w_dns = wildcard_dns, w_http = no_http,
            w_queries = [QUnexpected], w_output_paths = []\<rparr>
      else \<lparr>w_ns_ip_list = [],
            w_tokens = [''0a0a0a0a'', ''0b0b0b0b'', ''0c0c0c0c''],
            w_dns = no_dns, w_http = no_http,
            w_queries = [],
            w_output_paths =
              [[Some \<lparr>i_name = Some ''www.b.com.'', i_status = Some ''NOERROR'',
                      i_resolver = Some ''8.8.8.8'',
                      i_data = Some (Some [\<lparr>a_type = ''A'', a_name = ''www.b.com.'',
                                             a_ttl = 300, a_data = ''9.9.9.9''\<rparr>])\<rparr>]]\<rparr>)"

definition example_answer_ok :: answer where
  "example_answer_ok =
     \<lparr>a_type = ''A'', a_name = ''www.b.com.'', a_ttl = 300, a_data = ''9.9.9.9''\<rparr>"

definition example_answer_blacklisted :: answer where
  "example_answer_blacklisted =
     \<lparr>a_type = ''A'', a_name = ''www.b.com.'', a_ttl = 300, a_data = ''0.0.0.0''\<rparr>"

definition example_items_ok :: items where
  "example_items_ok =
     \<lparr>i_name = Some ''www.b.com.'', i_status = Some ''NOERROR'', i_resolver = Some ''8.8.8.8'',
      i_data = Some (Some [example_answer_ok])\<rparr>"

definition example_items_mixed :: items where
  "example_items_mixed =
     \<lparr>i_name = Some ''www.b.com.'', i_status = Some ''NOERROR'', i_resolver = Some ''8.8.8.8'',
      i_data = Some (Some [example_answer_ok, example_answer_blacklisted])\<rparr>"



definition example_ip_times :: "string \<rightharpoonup> int" where
  "example_ip_times = [''9.9.9.9'' \<mapsto> 1, ''0.0.0.0'' \<mapsto> 1]"

definition example_http_empty_body :: "string \<Rightarrow> response option" where
  "example_http_empty_body url =
     (if url = ''http://0a0a0a0a.c.com'' then Some \<lparr>resp_ok = True, resp_text = ''''\<rparr>
      else if url = ''http://0b0b0b0b.c.com''
      then Some \<lparr>resp_ok = True, resp_text = ''<html>shop</html>''\<rparr>
      else Some \<lparr>resp_ok = True, resp_text = ''<html>blog</html>''\<rparr>)"

definition example_exrex :: "string \<Rightarrow> string list" where
  "example_exrex rule =
     (if rule = ''[a-z]'' then map (\<lambda>c. [c]) ''abcdefghijklmnopqrstuvwxyz'' else [])"

definition example_is_subname :: "string \<Rightarrow> bool" where
  "example_is_subname word = True"



section \<open>Properties of the classifier\<close>

text \<open>
  Claim C1, as amended. The classifier evaluates its rules in priority order. For every
  address, TTL, frequency, wildcard record and blacklist it returns (0, IP blacklist) when
  the address is blacklisted; otherwise (0, IP wildcard) when the address collection of the
  wildcard record is not empty and its TTL is set and not 0, the address is in the
  collection and the escape condition
  \<open>ttl \<noteq> wc_ttl \<and> ttl mod 60 = 0 \<and> wc_ttl mod 60 = 0\<close> does not hold; otherwise
  (0, IP exceeded) when the frequency is above the configured ceiling; otherwise (1, OK).
  In particular 1.2.3.4 with TTL 300, frequency 1 and the empty record is (1, OK), for a
  blacklist without that address and a ceiling of at least 1.
\<close>

theorem is_valid_subdomain_priority:
  "is_valid_subdomain cfg ip ttl (Some freq) wc_ips wc_ttl =
     Inr (if ip \<in> brute_ip_blacklist cfg then (0, ''IP blacklist'')
          else if wc_ips \<noteq> [] \<and> ip \<in> set wc_ips \<and>
                  (\<exists>t. wc_ttl = Some t \<and> t \<noteq> 0 \<and>
                       \<not> (ttl \<noteq> t \<and> ttl mod 60 = 0 \<and> t mod 60 = 0))
            then (0, ''IP wildcard'')
          else if freq > ip_appear_maximum cfg then (0, ''IP exceeded'')
          else (1, ''OK''))
   \<and> (''1.2.3.4'' \<notin> brute_ip_blacklist cfg \<and> 1 \<le> ip_appear_maximum cfg \<longrightarrow>
        is_valid_subdomain cfg ''1.2.3.4'' 300 (Some 1) [] (Some 0) = Inr (1, ''OK''))"
  by (cases wc_ttl)
     (auto simp: is_valid_subdomain_def check_by_compare_def check_ip_times_def)

theorem is_valid_subdomain_priority_witness:
  "is_valid_subdomain \<lparr>brute_ip_blacklist = {''0.0.0.0'', ''0.0.0.1''}, ip_appear_maximum = 100\<rparr>
     ''1.2.3.4'' 300 (Some 1) [] (Some 0) = Inr (1, ''OK'')
   \<and> is_valid_subdomain \<lparr>brute_ip_blacklist = {''0.0.0.0'', ''0.0.0.1''}, ip_appear_maximum = 100\<rparr>
     ''0.0.0.1'' 300 (Some 1) [''0.0.0.1''] (Some 300) = Inr (0, ''IP blacklist'')"
  using is_valid_subdomain_priority
    [of "\<lparr>brute_ip_blacklist = {''0.0.0.0'', ''0.0.0.1''}, ip_appear_maximum = 100\<rparr>"
        "''0.0.0.1''" 300 1 "[''0.0.0.1'']" "Some 300"]
  by simp


text \<open>
  Claim C1 as stated fails. It asks only for a non-empty profile that holds the address and
  for the escape condition not to hold. With the record \<open>([1.2.3.4], 0)\<close>, or with the
  TTL \<open>None\<close>, and an answer for 1.2.3.4 with TTL 17, the address is not blacklisted, it
  is in the record, and the escape condition does not hold (17 is no multiple of 60); the
  guard \<open>all([wc_ips, wc_ttl])\<close> skips the comparison and the verdict is (1, OK).
\<close>

theorem wildcard_rule_needs_ttl:
  "''1.2.3.4'' \<notin> brute_ip_blacklist example_cfg
   \<and> ''1.2.3.4'' \<in> set [''1.2.3.4'']
   \<and> \<not> ((17::int) \<noteq> 0 \<and> (17::int) mod 60 = 0 \<and> (0::int) mod 60 = 0)
   \<and> is_valid_subdomain example_cfg ''1.2.3.4'' 17 (Some 1) [''1.2.3.4''] (Some 0)
       = Inr (1, ''OK'')
   \<and> is_valid_subdomain example_cfg ''1.2.3.4'' 17 (Some 1) [''1.2.3.4''] None
       = Inr (1, ''OK'')"
  by (simp add: is_valid_subdomain_def check_ip_times_def example_cfg_def)

text \<open>
  Claim C9. The wildcard comparison is skipped whenever the wildcard record's TTL is 0 or
  its address collection is empty: the verdict is then the one the empty record gives, and
  it is never IP wildcard, also for an address that is in the record's collection.
\<close>

theorem wildcard_compare_skipped:
  assumes "wc_ttl = Some 0 \<or> wc_ips = []"
  shows "is_valid_subdomain cfg ip ttl num wc_ips wc_ttl =
           is_valid_subdomain cfg ip ttl num [] (Some 0)
         \<and> (\<forall>flag. is_valid_subdomain cfg ip ttl num wc_ips wc_ttl \<noteq> Inr (flag, ''IP wildcard''))"
  using assms
  by (cases wc_ttl; cases num)
     (auto simp: is_valid_subdomain_def check_by_compare_def check_ip_times_def)

theorem wildcard_compare_skipped_witness:
  "is_valid_subdomain \<lparr>brute_ip_blacklist = {''0.0.0.0''}, ip_appear_maximum = 100\<rparr>
     ''1.2.3.4'' 300 (Some 1) [''1.2.3.4''] (Some 0) = Inr (1, ''OK'')
   \<and> is_valid_subdomain \<lparr>brute_ip_blacklist = {''0.0.0.0''}, ip_appear_maximum = 100\<rparr>
     ''1.2.3.4'' 300 (Some 1) [''1.2.3.4''] (Some 0) \<noteq> Inr (0, ''IP wildcard'')"
proof -
  have h: "Some (0::int) = Some 0 \<or> [''1.2.3.4''] = []" by simp
  have "is_valid_subdomain \<lparr>brute_ip_blacklist = {''0.0.0.0''}, ip_appear_maximum = 100\<rparr>
          ''1.2.3.4'' 300 (Some 1) [] (Some 0) = Inr (1, ''OK'')"
    by (simp add: is_valid_subdomain_def check_ip_times_def)
  with wildcard_compare_skipped [OF h,
      of "\<lparr>brute_ip_blacklist = {''0.0.0.0''}, ip_appear_maximum = 100\<rparr>" "''1.2.3.4''" 300 "Some 1"]
  show ?thesis by simp
qed

section \<open>Properties of the collector\<close>

lemma get_wildcard_record_append:
  "get_wildcard_record qs = Some (r, qs') \<Longrightarrow> get_wildcard_record (qs @ ys) = Some (r, qs' @ ys)"
  by (cases qs) (auto split: attempt.splits list.splits)

lemma get_wildcard_record_pending:
  "get_wildcard_record qs = None \<Longrightarrow>
     get_wildcard_record (qs @ QUnexpected # rest) = Some (Exited 1, rest)"
  by (cases qs) (auto split: attempt.splits list.splits)

lemma collect_loop_append:
  "collect_loop st qs = Some res \<Longrightarrow> collect_loop st (qs @ ys) = Some res"
proof (induction st qs rule: collect_loop.induct)
  case (1 st qs)
  from "1.prems" obtain r qs' where g: "get_wildcard_record qs = Some (r, qs')"
    by (cases "get_wildcard_record qs") (auto simp: collect_loop.simps [of st qs])
  have ga: "get_wildcard_record (qs @ ys) = Some (r, qs' @ ys)"
    using g by (rule get_wildcard_record_append)
  show ?case
  proof (cases r)
    case (Raised e)
    with "1.prems" g have "collect_loop st qs' = Some res"
      by (simp add: collect_loop.simps [of st qs])
    with "1.IH"(2) [OF g refl Raised] have "collect_loop st (qs' @ ys) = Some res" by simp
    with ga Raised show ?thesis by (simp add: collect_loop.simps [of st "qs @ ys"])
  next
    case (Exited code)
    with "1.prems" g ga show ?thesis
      by (simp add: collect_loop.simps [of st qs] collect_loop.simps [of st "qs @ ys"])
  next
    case (Returned p)
    obtain ip t where p: "p = (ip, t)" by (cases p)
    show ?thesis
    proof (cases "loop_body st ip t")
      case (Break x)
      with "1.prems" g ga Returned p show ?thesis
        by (simp add: collect_loop.simps [of st qs] collect_loop.simps [of st "qs @ ys"])
    next
      case (Continue st')
      with "1.prems" g Returned p have "collect_loop st' qs' = Some res"
        by (simp add: collect_loop.simps [of st qs])
      with "1.IH"(1) [OF g refl Returned p [symmetric] Continue]
      have "collect_loop st' (qs' @ ys) = Some res" by simp
      with ga Returned p Continue show ?thesis
        by (simp add: collect_loop.simps [of st "qs @ ys"])
    qed
  qed
qed

lemma collect_loop_pending_unexpected:
  "collect_loop st qs = None \<Longrightarrow> collect_loop st (qs @ QUnexpected # rest) = Some (Exited 1)"
proof (induction st qs rule: collect_loop.induct)
  case (1 st qs)
  show ?case
  proof (cases "get_wildcard_record qs")
    case None
    then show ?thesis
      by (simp add: collect_loop.simps [of st "qs @ QUnexpected # rest"]
            get_wildcard_record_pending)
  next
    case (Some a)
    obtain r qs' where a: "a = (r, qs')" by (cases a)
    have g: "get_wildcard_record qs = Some (r, qs')" using Some a by simp
    have ga: "get_wildcard_record (qs @ QUnexpected # rest) = Some (r, qs' @ QUnexpected # rest)"
      using g by (rule get_wildcard_record_append)
    show ?thesis
    proof (cases r)
      case (Raised e)
      with "1.prems" g have "collect_loop st qs' = None"
        by (simp add: collect_loop.simps [of st qs])
      with "1.IH"(2) [OF g refl Raised]
      have "collect_loop st (qs' @ QUnexpected # rest) = Some (Exited 1)" by simp
      with ga Raised show ?thesis
        by (simp add: collect_loop.simps [of st "qs @ QUnexpected # rest"])
    next
      case (Exited code)
      with "1.prems" g show ?thesis by (simp add: collect_loop.simps [of st qs])
    next
      case (Returned p)
      obtain ip t where p: "p = (ip, t)" by (cases p)
      show ?thesis
      proof (cases "loop_body st ip t")
        case (Break x)
        with "1.prems" g Returned p show ?thesis by (simp add: collect_loop.simps [of st qs])
      next
        case (Continue st')
        with "1.prems" g Returned p have "collect_loop st' qs' = None"
          by (simp add: collect_loop.simps [of st qs])
        with "1.IH"(1) [OF g refl Returned p [symmetric] Continue]
        have "collect_loop st' (qs' @ QUnexpected # rest) = Some (Exited 1)" by simp
        with ga Returned p Continue show ?thesis
          by (simp add: collect_loop.simps [of st "qs @ QUnexpected # rest"])
      qed
    qed
  qed
qed

lemma data_addresses_append:
  "data_addresses (xs @ ys) = data_addresses xs @ data_addresses ys"
  by (induction xs rule: data_addresses.induct) auto

lemma occurrences_snoc:
  "occurrences a (outs @ [None]) = occurrences a outs"
  "occurrences a (outs @ [Some (addrs, t)]) = occurrences a outs + (if a \<in> set addrs then 1 else 0)"
  by (simp_all add: occurrences_def data_addresses_append)

lemma addresses_seen_snoc:
  "set (addresses_seen (outs @ [None])) = set (addresses_seen outs)"
  "set (addresses_seen (outs @ [Some (addrs, t)])) = set (addresses_seen outs) \<union> set addrs"
  by (simp_all add: addresses_seen_def data_addresses_append)

lemma occurrences_pos: "(0 < occurrences a outs) = (a \<in> set (addresses_seen outs))"
  by (auto simp: occurrences_def addresses_seen_def filter_empty_conv)

lemma map_of_stat_addr:
  "map_of (stat_addr a stat) =
     (map_of stat)(a \<mapsto> (case map_of stat a of None \<Rightarrow> 1 | Some n \<Rightarrow> n + 1))"
  by (induction a stat rule: stat_addr.induct) (auto simp: fun_upd_twist)

lemma keys_stat_addr: "fst ` set (stat_addr a stat) = insert a (fst ` set stat)"
  by (induction a stat rule: stat_addr.induct) auto

lemma distinct_stat_addr:
  "distinct (map fst stat) \<Longrightarrow> distinct (map fst (stat_addr a stat))"
proof (induction a stat rule: stat_addr.induct)
  case (1 addr)
  show ?case by simp
next
  case (2 addr k v kvs)
  then show ?case using keys_stat_addr [of addr kvs] by (auto simp: image_iff)
qed

lemma fold_stat_addr:
  "distinct addrs \<Longrightarrow> distinct (map fst stat) \<Longrightarrow>
     distinct (map fst (fold stat_addr addrs stat))
     \<and> (\<forall>a. map_of (fold stat_addr addrs stat) a =
           (if a \<in> set addrs
            then Some ((case map_of stat a of None \<Rightarrow> 0 | Some n \<Rightarrow> n) + 1)
            else map_of stat a))"
proof (induction addrs arbitrary: stat)
  case Nil
  then show ?case by simp
next
  case (Cons x xs)
  from Cons.prems have d: "distinct xs" and nx: "x \<notin> set xs" by simp_all
  from Cons.prems have ds: "distinct (map fst (stat_addr x stat))"
    by (simp add: distinct_stat_addr)
  from Cons.IH [OF d ds] nx show ?case
    by (auto simp: map_of_stat_addr split: option.splits)
qed

lemma set_update_set:
  "distinct ips \<Longrightarrow> distinct ip \<Longrightarrow>
     distinct (set_update ips ip) \<and> set (set_update ips ip) = set ips \<union> set ip"
  by (auto simp: set_update_def)

lemma tracks_lengths:
  assumes "tracks st outs"
  shows "length (c_ips st) = length (addresses_seen outs)"
    and "length (twice_seen (c_ips_stat st)) = length (seen_twice outs)"
proof -
  from assms have d: "distinct (c_ips st)" and s: "set (c_ips st) = set (addresses_seen outs)"
    and dk: "distinct (map fst (c_ips_stat st))"
    and m: "\<And>a. map_of (c_ips_stat st) a =
               (if occurrences a outs = 0 then None else Some (occurrences a outs))"
    by (simp_all add: tracks_def)
  have da: "distinct (addresses_seen outs)" by (simp add: addresses_seen_def)
  have "card (set (c_ips st)) = card (set (addresses_seen outs))" using s by simp
  then show "length (c_ips st) = length (addresses_seen outs)"
    using d da by (simp add: distinct_card)
  have d1: "distinct (twice_seen (c_ips_stat st))"
    unfolding twice_seen_def using dk by (rule distinct_map_filter)
  have d2: "distinct (seen_twice outs)"
    by (simp add: seen_twice_def addresses_seen_def)
  have "set (twice_seen (c_ips_stat st)) = {a. 2 \<le> occurrences a outs}"
  proof (intro set_eqI iffI)
    fix a assume "a \<in> set (twice_seen (c_ips_stat st))"
    then obtain n where "(a, n) \<in> set (c_ips_stat st)" "2 \<le> n"
      by (auto simp: twice_seen_def)
    with dk have "map_of (c_ips_stat st) a = Some n" "2 \<le> n" by simp_all
    with m [of a] show "a \<in> {a. 2 \<le> occurrences a outs}" by (auto split: if_splits)
  next
    fix a assume "a \<in> {a. 2 \<le> occurrences a outs}"
    then have o: "2 \<le> occurrences a outs" by simp
    with m [of a] have "map_of (c_ips_stat st) a = Some (occurrences a outs)" by simp
    then have "(a, occurrences a outs) \<in> set (c_ips_stat st)" by (rule map_of_SomeD)
    with o show "a \<in> set (twice_seen (c_ips_stat st))"
      by (force simp: twice_seen_def)
  qed
  moreover have "set (seen_twice outs) = {a. 2 \<le> occurrences a outs}"
  proof -
    have "a \<in> set (addresses_seen outs)" if "2 \<le> occurrences a outs" for a
    proof -
      from that have "0 < occurrences a outs" by simp
      then show ?thesis by (simp add: occurrences_pos)
    qed
    then show ?thesis by (auto simp: seen_twice_def)
  qed
  ultimately have "card (set (twice_seen (c_ips_stat st))) = card (set (seen_twice outs))"
    by simp
  then show "length (twice_seen (c_ips_stat st)) = length (seen_twice outs)"
    using d1 d2 by (simp add: distinct_card)
qed

lemma tracks_data:
  assumes "tracks st outs"
  shows "tracks \<lparr>c_ips = set_update (c_ips st) (remdups addrs), c_ttl = Some t,
                  c_ttls_check = c_ttls_check st @ [Some t],
                  c_ips_stat = fold stat_addr (remdups addrs) (c_ips_stat st),
                  c_ips_check = chk\<rparr> (outs @ [Some (addrs, t)])"
proof -
  from assms have d: "distinct (c_ips st)" and s: "set (c_ips st) = set (addresses_seen outs)"
    and dk: "distinct (map fst (c_ips_stat st))"
    and m: "\<And>a. map_of (c_ips_stat st) a =
               (if occurrences a outs = 0 then None else Some (occurrences a outs))"
    and tt: "c_ttls_check st = map (map_option snd) outs"
    by (simp_all add: tracks_def)
  note u = set_update_set [OF d distinct_remdups [of addrs]]
  note f = fold_stat_addr [OF distinct_remdups [of addrs] dk]
  show ?thesis
    unfolding tracks_def
    using u f s m tt by (auto simp: occurrences_snoc addresses_seen_snoc)
qed

lemma tracks_no_data:
  assumes "tracks st outs"
  shows "tracks (st\<lparr>c_ttl := None, c_ttls_check := c_ttls_check st @ [None],
                    c_ips_check := chk\<rparr>) (outs @ [None])"
  using assms by (simp add: tracks_def occurrences_snoc addresses_seen_snoc)

lemma loop_body_tracks:
  assumes "tracks st outs"
      and "loop_body st (map_option (remdups \<circ> fst) out) (map_option snd out) = Continue st'"
  shows "tracks st' (outs @ [out])"
proof (cases out)
  case None
  with assms(2) have "\<exists>chk. st' = st\<lparr>c_ttl := None, c_ttls_check := c_ttls_check st @ [None],
                                        c_ips_check := chk\<rparr>"
    by (auto simp: loop_body_def Let_def split: if_splits)
  with tracks_no_data [OF assms(1)] None show ?thesis by auto
next
  case (Some p)
  obtain addrs t where p: "p = (addrs, t)" by (cases p)
  with assms(2) Some
  have "\<exists>chk. st' = \<lparr>c_ips = set_update (c_ips st) (remdups addrs), c_ttl = Some t,
                  c_ttls_check = c_ttls_check st @ [Some t],
                  c_ips_stat = fold stat_addr (remdups addrs) (c_ips_stat st),
                  c_ips_check = chk\<rparr>"
    by (auto simp: loop_body_def Let_def split: if_splits)
  with tracks_data [OF assms(1)] Some p show ?thesis by auto
qed

lemma collect_loop_answer:
  "collect_loop st (QAnswer out # qs) =
     (case loop_body st (map_option (remdups \<circ> fst) out) (map_option snd out) of
        Break res \<Rightarrow> Some res
      | Continue st' \<Rightarrow> collect_loop st' qs)"
proof (cases out)
  case None
  show ?thesis unfolding None by (subst collect_loop.simps) simp
next
  case (Some p)
  obtain addrs t where p: "p = (addrs, t)" by (cases p)
  show ?thesis unfolding Some p by (subst collect_loop.simps) simp
qed

lemma running_tracks:
  "tracks st outs1 \<Longrightarrow> collect_loop st (map QAnswer outs2) = None \<Longrightarrow>
     \<exists>st'. tracks st' (outs1 @ outs2)
          \<and> (\<forall>rest. collect_loop st (map QAnswer outs2 @ rest) = collect_loop st' rest)"
proof (induction outs2 arbitrary: st outs1)
  case Nil
  then show ?case by auto
next
  case (Cons out outs2)
  from Cons.prems(2) obtain st1 where
    b: "loop_body st (map_option (remdups \<circ> fst) out) (map_option snd out) = Continue st1"
    and r: "collect_loop st1 (map QAnswer outs2) = None"
    by (auto simp: collect_loop_answer split: step.splits)
  from loop_body_tracks [OF Cons.prems(1) b] have t1: "tracks st1 (outs1 @ [out])" .
  from Cons.IH [OF t1 r] obtain st' where
    "tracks st' ((outs1 @ [out]) @ outs2)"
    "\<forall>rest. collect_loop st1 (map QAnswer outs2 @ rest) = collect_loop st' rest"
    by blast
  with b show ?case by (auto simp: collect_loop_answer)
qed

lemma tracks_initial:
  "tracks \<lparr>c_ips = [], c_ttl = Some 0, c_ttls_check = [], c_ips_stat = [], c_ips_check = []\<rparr> []"
  by (simp add: tracks_def addresses_seen_def occurrences_def)

lemma loop_body_data:
  assumes tr: "tracks st pre" and ne: "addrs \<noteq> []"
      and tw: "\<not> (length pre = 4 \<and> distinct (map (map_option snd) (pre @ [Some (addrs, t)])))"
  shows "loop_body st (Some (remdups addrs)) (Some t) =
     (if representative (pre @ [Some (addrs, t)])
      then Break (Returned (set_update (c_ips st) (remdups addrs), Some t))
      else Continue \<lparr>c_ips = set_update (c_ips st) (remdups addrs), c_ttl = Some t,
                      c_ttls_check = c_ttls_check st @ [Some t],
                      c_ips_stat = fold stat_addr (remdups addrs) (c_ips_stat st),
                      c_ips_check = (if length (c_ips_check st @ [Some (remdups addrs)]) = 5
                                     then [] else c_ips_check st @ [Some (remdups addrs)])\<rparr>)"
proof -
  let ?chk = "if length (c_ips_check st @ [Some (remdups addrs)]) = 5
              then [] else c_ips_check st @ [Some (remdups addrs)]"
  let ?st1 = "\<lparr>c_ips = set_update (c_ips st) (remdups addrs), c_ttl = Some t,
                c_ttls_check = c_ttls_check st @ [Some t],
                c_ips_stat = fold stat_addr (remdups addrs) (c_ips_stat st),
                c_ips_check = ?chk\<rparr>"
  have t1: "tracks ?st1 (pre @ [Some (addrs, t)])" using tr by (rule tracks_data)
  from tracks_lengths [OF t1]
  have l: "length (set_update (c_ips st) (remdups addrs))
             = length (addresses_seen (pre @ [Some (addrs, t)]))"
    "length (twice_seen (fold stat_addr (remdups addrs) (c_ips_stat st)))
             = length (seen_twice (pre @ [Some (addrs, t)]))"
    by simp_all
  from tr have tt: "c_ttls_check st = map (map_option snd) pre" by (simp add: tracks_def)
  have any: "any_ips (c_ips_check st @ [Some (remdups addrs)])"
    using ne by (simp add: any_ips_def)
  have nz: "set_update (c_ips st) (remdups addrs) \<noteq> []"
    using ne by (cases "c_ips st") (auto simp: set_update_def filter_empty_conv)
  have tc: "\<not> (length (c_ttls_check st @ [Some t]) = 5
               \<and> card (set (c_ttls_check st @ [Some t])) = 5)"
  proof
    assume a: "length (c_ttls_check st @ [Some t]) = 5
               \<and> card (set (c_ttls_check st @ [Some t])) = 5"
    then have "card (set (c_ttls_check st @ [Some t])) = length (c_ttls_check st @ [Some t])"
      by simp
    then have "distinct (c_ttls_check st @ [Some t])" by (rule card_distinct)
    with a tt tw show False by simp
  qed
  show ?thesis
    using any nz tc l
    by (simp add: loop_body_def Let_def representative_def)
qed

text \<open>
  Claim C7, as amended. On a feed of answers, while the collector is still running after
  the answers \<open>pre\<close>, an answer with data that the check of the first five TTLs does not
  end (that check ends the collection at the fifth query when the five TTLs are pairwise
  distinct) stops the collection exactly when, with that answer counted, the addresses
  that occurred at least twice are at least four fifths of the distinct addresses seen:
  the collector then returns all the addresses seen so far, each once, with the TTL of
  that answer, and otherwise it goes on. In particular, with an authoritative name server
  known, a resolver that gives the same single address and TTL on every query makes the
  collector return that address alone, with that TTL, on any feed of two or more answers,
  so within 10 queries.
\<close>

theorem collector_convergence:
  "(authoritative_ns \<noteq> [] \<and> addrs \<noteq> []
      \<and> collect_wildcard_record authoritative_ns (map QAnswer pre) = None
      \<and> \<not> (length pre = 4 \<and> distinct (map (map_option snd) (pre @ [Some (addrs, t)])))
    \<longrightarrow> (if representative (pre @ [Some (addrs, t)])
         then \<exists>ips. collect_wildcard_record authoritative_ns
                       (map QAnswer (pre @ [Some (addrs, t)]) @ rest)
                     = Some (Returned (ips, Some t))
                   \<and> distinct ips
                   \<and> set ips = set (addresses_seen (pre @ [Some (addrs, t)]))
         else collect_wildcard_record authoritative_ns (map QAnswer (pre @ [Some (addrs, t)]))
              = None))
   \<and> (authoritative_ns \<noteq> [] \<and> 2 \<le> n
    \<longrightarrow> collect_wildcard_record authoritative_ns (replicate n (QAnswer (Some ([ip], ttl))))
          = Some (Returned ([ip], Some ttl)))"
proof (intro conjI impI)
  let ?st0 = "\<lparr>c_ips = [], c_ttl = Some 0, c_ttls_check = [], c_ips_stat = [],
                c_ips_check = []\<rparr>"
  let ?out = "Some (addrs, t)"
  assume a: "authoritative_ns \<noteq> [] \<and> addrs \<noteq> []
      \<and> collect_wildcard_record authoritative_ns (map QAnswer pre) = None
      \<and> \<not> (length pre = 4 \<and> distinct (map (map_option snd) (pre @ [Some (addrs, t)])))"
  then have ns: "authoritative_ns \<noteq> []"
    and "collect_wildcard_record authoritative_ns (map QAnswer pre) = None"
    by blast+
  then have run: "collect_loop ?st0 (map QAnswer pre) = None"
    by (simp add: collect_wildcard_record_def)
  from running_tracks [OF tracks_initial run] obtain st where
    tr: "tracks st pre"
    and eq: "\<And>rest. collect_loop ?st0 (map QAnswer pre @ rest) = collect_loop st rest"
    by auto
  from a have ne: "addrs \<noteq> []"
    and tw: "\<not> (length pre = 4 \<and> distinct (map (map_option snd) (pre @ [Some (addrs, t)])))"
    by blast+
  note body = loop_body_data [OF tr ne tw]
  from tr have d: "distinct (c_ips st)" by (simp add: tracks_def)
  from tracks_data [OF tr, of addrs t "[]"]
  have s: "distinct (set_update (c_ips st) (remdups addrs))"
    "set (set_update (c_ips st) (remdups addrs)) = set (addresses_seen (pre @ [?out]))"
    by (simp_all add: tracks_def)
  show "if representative (pre @ [Some (addrs, t)])
         then \<exists>ips. collect_wildcard_record authoritative_ns
                       (map QAnswer (pre @ [Some (addrs, t)]) @ rest)
                     = Some (Returned (ips, Some t))
                   \<and> distinct ips
                   \<and> set ips = set (addresses_seen (pre @ [Some (addrs, t)]))
         else collect_wildcard_record authoritative_ns (map QAnswer (pre @ [Some (addrs, t)]))
              = None"
  proof (cases "representative (pre @ [Some (addrs, t)])")
    case True
    have "collect_wildcard_record authoritative_ns (map QAnswer (pre @ [?out]) @ rest)
            = collect_loop st (QAnswer ?out # rest)"
      using ns eq [of "QAnswer ?out # rest"] by (simp add: collect_wildcard_record_def)
    also have "\<dots> = Some (Returned (set_update (c_ips st) (remdups addrs), Some t))"
      using body True by (simp add: collect_loop_answer)
    finally show ?thesis using True s by auto
  next
    case False
    have "collect_wildcard_record authoritative_ns (map QAnswer (pre @ [?out]))
            = collect_loop st [QAnswer ?out]"
      using ns eq [of "[QAnswer ?out]"] by (simp add: collect_wildcard_record_def)
    also have "\<dots> = None"
      using body False by (simp add: collect_loop_answer collect_loop.simps [of _ "[]"])
    finally show ?thesis using False by simp
  qed
next
  assume a: "authoritative_ns \<noteq> [] \<and> 2 \<le> n"
  then obtain m where n: "n = Suc (Suc m)"
    by (metis Suc_le_D numeral_2_eq_2 Suc_le_mono)
  show "collect_wildcard_record authoritative_ns (replicate n (QAnswer (Some ([ip], ttl))))
          = Some (Returned ([ip], Some ttl))"
    using a unfolding n
    by (simp add: collect_wildcard_record_def collect_loop.simps loop_body_def any_ips_def
          set_update_def twice_seen_def Let_def)
qed

theorem collector_convergence_witness:
  "(\<exists>ips. collect_wildcard_record [''198.51.100.1'']
            (map QAnswer [Some ([''1.1.1.1''], 60), Some ([''2.2.2.2''], 60),
                          Some ([''1.1.1.1''], 60), Some ([''2.2.2.2''], 30)])
          = Some (Returned (ips, Some 30))
        \<and> distinct ips \<and> set ips = {''1.1.1.1'', ''2.2.2.2''})
   \<and> collect_wildcard_record [''198.51.100.1'']
       (map QAnswer [Some ([''1.1.1.1''], 60), Some ([''2.2.2.2''], 60),
                     Some ([''1.1.1.1''], 60)]) = None
   \<and> collect_wildcard_record [''198.51.100.1''] (replicate 10 (QAnswer (Some ([''1.2.3.4''], 300))))
     = Some (Returned ([''1.2.3.4''], Some 300))"
proof -
  let ?pre = "[Some ([''1.1.1.1''], 60), Some ([''2.2.2.2''], 60), Some ([''1.1.1.1''], 60)]"
  have r3: "collect_wildcard_record [''198.51.100.1''] (map QAnswer ?pre) = None"
    by (simp add: collect_wildcard_record_def collect_loop.simps loop_body_def any_ips_def
          set_update_def twice_seen_def Let_def)
  have rep: "representative (?pre @ [Some ([''2.2.2.2''], 30)])"
    by (simp add: representative_def addresses_seen_def seen_twice_def occurrences_def)
  have seen: "set (addresses_seen (?pre @ [Some ([''2.2.2.2''], 30)])) = {''1.1.1.1'', ''2.2.2.2''}"
    by (auto simp: addresses_seen_def)
  from collector_convergence [of "[''198.51.100.1'']" "[''2.2.2.2'']" ?pre 30 "[]" 10
      "''1.2.3.4''" 300] r3 rep seen
  show ?thesis by simp
qed

text \<open>
  Claim C7 as stated fails at the fifth query. Four answers with one new address each and
  a fifth answer with all four addresses, under the TTLs 1 to 5: the fifth query returns
  data and, with it counted, every address has occurred twice, so the rule of the claim
  would return the four addresses with TTL 5. The check of the five TTLs comes first and
  the collector returns the empty set with TTL 0.
\<close>

theorem convergence_after_ttl_check:
  "representative [Some ([''10.0.0.1''], 1), Some ([''10.0.0.2''], 2), Some ([''10.0.0.3''], 3),
                   Some ([''10.0.0.4''], 4),
                   Some ([''10.0.0.1'', ''10.0.0.2'', ''10.0.0.3'', ''10.0.0.4''], 5)]
   \<and> collect_wildcard_record [''198.51.100.1'']
       (map QAnswer [Some ([''10.0.0.1''], 1), Some ([''10.0.0.2''], 2), Some ([''10.0.0.3''], 3),
                     Some ([''10.0.0.4''], 4)]) = None
   \<and> collect_wildcard_record [''198.51.100.1'']
       (map QAnswer [Some ([''10.0.0.1''], 1), Some ([''10.0.0.2''], 2), Some ([''10.0.0.3''], 3),
                     Some ([''10.0.0.4''], 4),
                     Some ([''10.0.0.1'', ''10.0.0.2'', ''10.0.0.3'', ''10.0.0.4''], 5)])
     = Some (Returned ([], Some 0))"
  by (simp add: representative_def addresses_seen_def seen_twice_def occurrences_def
        collect_wildcard_record_def collect_loop.simps loop_body_def any_ips_def
        set_update_def twice_seen_def Let_def)

text \<open>
  At the fifth query the check of the TTLs works as described: when the five TTLs seen are
  pairwise distinct (and the five queries were not all without data), the loop ends with
  the empty set and TTL 0, whatever addresses were gathered before.
\<close>

lemma ttl_check_first_window:
  assumes "length (c_ttls_check st) = 4" and "distinct (c_ttls_check st @ [t])"
      and "\<not> (length (c_ips_check st) = 4 \<and> \<not> any_ips (c_ips_check st @ [ip]))"
  shows "loop_body st ip t = Break (Returned ([], Some 0))"
  using assms distinct_card [of "c_ttls_check st @ [t]"]
  by (auto simp: loop_body_def Let_def)

text \<open>
  Claim C3, at an input where the code departs from it. The claim has the check of five
  pairwise distinct TTLs at every multiple of five queries. The list \<open>ttls_check\<close> is
  never emptied (unlike \<open>ips_check\<close>), so its length is 5 only once. Here ten queries
  return ten different addresses, the first five with TTL 60 and the last five with the
  TTLs 1 to 5: after the tenth query the loop has not stopped and asks for another query,
  and an eleventh answer that repeats eight of the addresses ends it by convergence with
  all ten addresses.
\<close>

theorem ttl_check_not_repeated:
  "collect_wildcard_record [''198.51.100.1'']
     [QAnswer (Some ([''10.0.0.1''], 60)), QAnswer (Some ([''10.0.0.2''], 60)),
      QAnswer (Some ([''10.0.0.3''], 60)), QAnswer (Some ([''10.0.0.4''], 60)),
      QAnswer (Some ([''10.0.0.5''], 60)),
      QAnswer (Some ([''10.0.0.6''], 1)), QAnswer (Some ([''10.0.0.7''], 2)),
      QAnswer (Some ([''10.0.0.8''], 3)), QAnswer (Some ([''10.0.0.9''], 4)),
      QAnswer (Some ([''10.0.0.10''], 5))] = None
   \<and> collect_wildcard_record [''198.51.100.1'']
     [QAnswer (Some ([''10.0.0.1''], 60)), QAnswer (Some ([''10.0.0.2''], 60)),
      QAnswer (Some ([''10.0.0.3''], 60)), QAnswer (Some ([''10.0.0.4''], 60)),
      QAnswer (Some ([''10.0.0.5''], 60)),
      QAnswer (Some ([''10.0.0.6''], 1)), QAnswer (Some ([''10.0.0.7''], 2)),
      QAnswer (Some ([''10.0.0.8''], 3)), QAnswer (Some ([''10.0.0.9''], 4)),
      QAnswer (Some ([''10.0.0.10''], 5)),
      QAnswer (Some ([''10.0.0.1'', ''10.0.0.2'', ''10.0.0.3'', ''10.0.0.4'', ''10.0.0.5'',
                      ''10.0.0.6'', ''10.0.0.7'', ''10.0.0.8''], 7))]
     = Some (Returned ([''10.0.0.1'', ''10.0.0.2'', ''10.0.0.3'', ''10.0.0.4'', ''10.0.0.5'',
                        ''10.0.0.6'', ''10.0.0.7'', ''10.0.0.8'', ''10.0.0.9'', ''10.0.0.10''],
                       Some 7))"
  by (simp add: collect_wildcard_record_def collect_loop.simps loop_body_def any_ips_def
        set_update_def twice_seen_def Let_def)

text \<open>
  Claim C4, at inputs where the code departs from it. The claim has the collector return
  the empty set with TTL 0 after five queries without data. The \<open>break\<close> of that
  check leaves the locals as they are: the TTL is the \<open>None\<close> of the last query, and
  the addresses gathered before stay in the set. Five queries without data from the start
  give the empty set with TTL \<open>None\<close>; five answers with different addresses followed
  by five queries without data give the five addresses with TTL \<open>None\<close>.
\<close>

theorem no_data_break_keeps_locals:
  "collect_wildcard_record [''198.51.100.1'']
     [QNegative, QNegative, QNegative, QNegative, QNegative] = Some (Returned ([], None))
   \<and> collect_wildcard_record [''198.51.100.1'']
     [QAnswer (Some ([''10.0.0.1''], 60)), QAnswer (Some ([''10.0.0.2''], 60)),
      QAnswer (Some ([''10.0.0.3''], 60)), QAnswer (Some ([''10.0.0.4''], 60)),
      QAnswer (Some ([''10.0.0.5''], 60)),
      QNegative, QNegative, QNegative, QNegative, QNegative]
     = Some (Returned ([''10.0.0.1'', ''10.0.0.2'', ''10.0.0.3'', ''10.0.0.4'', ''10.0.0.5''],
                       None))"
  by (simp add: collect_wildcard_record_def collect_loop.simps loop_body_def any_ips_def
        set_update_def twice_seen_def Let_def)

section \<open>Properties of the run\<close>

lemma run_domains_append:
  "run_domains ip_is_public is_similar cfg world (ds1 @ ds2) acc =
     (case run_domains ip_is_public is_similar cfg world ds1 acc of
        Some (Returned acc') \<Rightarrow> run_domains ip_is_public is_similar cfg world ds2 acc'
      | other \<Rightarrow> other)"
  by (induction ds1 arbitrary: acc) (auto split: option.splits outcome.splits)

lemma main_exits:
  assumes "detect_wildcard (w_dns w) (w_http w) is_similar (w_tokens w) d = Inr True"
      and "collect_wildcard_record (w_ns_ip_list w) (w_queries w) = Some (Exited code)"
  shows "main ip_is_public is_similar cfg w d = Some (Exited code)"
  using assms by (simp add: main_def)

lemma example_detect_a:
  "detect_wildcard wildcard_dns no_http example_is_similar
     [''0a0a0a0a'', ''0b0b0b0b'', ''0c0c0c0c''] ''a.com'' = Inr True"
  by (simp add: detect_wildcard_def gen_random_subdomains_def all_resolve_success_def
        all_request_success_def request_entry_def wildcard_dns_def no_http_def Let_def)

lemma example_detect_b:
  "detect_wildcard no_dns no_http example_is_similar
     [''0a0a0a0a'', ''0b0b0b0b'', ''0c0c0c0c''] ''b.com'' = Inr False"
  by (simp add: detect_wildcard_def gen_random_subdomains_def all_resolve_success_def
        no_dns_def Let_def)

text \<open>
  Claim C5, as amended. A timeout is retried once (two attempts in all; two timeouts make
  the collector drop the query and go on with a new one), and a definitive negative answer
  is the outcome "no data". Any other error of a query calls \<open>exit(1)\<close>: whenever the
  collector, still running after the queries \<open>qs\<close>, meets an unexpected error on its
  next attempt, the collection ends with exit status 1, \<open>main\<close> ends with it, and the run
  over the domains ends with it, whatever domains remain.
\<close>

theorem unexpected_error_exits_process:
  assumes "detect_wildcard (w_dns (world d)) (w_http (world d)) is_similar
             (w_tokens (world d)) d = Inr True"
      and "w_ns_ip_list (world d) \<noteq> []"
      and "collect_wildcard_record (w_ns_ip_list (world d)) qs = None"
      and "w_queries (world d) = qs @ QUnexpected # rest"
      and "run_domains ip_is_public is_similar cfg world before [] = Some (Returned found)"
  shows "collect_wildcard_record (w_ns_ip_list (world d)) (w_queries (world d)) = Some (Exited 1)
       \<and> main ip_is_public is_similar cfg (world d) d = Some (Exited 1)
       \<and> run ip_is_public is_similar cfg world (before @ d # after) = Some (Exited 1)
       \<and> get_wildcard_record (QTimeout # QTimeout # qs') = Some (Raised RetryError, qs')
       \<and> collect_loop st (QTimeout # QTimeout # qs') = collect_loop st qs'
       \<and> get_wildcard_record (QTimeout # QNegative # qs') = Some (Returned (None, None), qs')
       \<and> get_wildcard_record (QNegative # qs') = Some (Returned (None, None), qs')"
proof -
  have c: "collect_wildcard_record (w_ns_ip_list (world d)) (w_queries (world d)) = Some (Exited 1)"
    using assms(2,3,4) by (simp add: collect_wildcard_record_def collect_loop_pending_unexpected)
  have m: "main ip_is_public is_similar cfg (world d) d = Some (Exited 1)"
    using assms(1) c by (rule main_exits)
  have r: "run ip_is_public is_similar cfg world (before @ d # after) = Some (Exited 1)"
    using assms(5) m by (simp add: run_def run_domains_append)
  have t: "collect_loop st (QTimeout # QTimeout # qs') = collect_loop st qs'"
    by (simp add: collect_loop.simps [of st "QTimeout # QTimeout # qs'"])
  show ?thesis using c m r t by simp
qed

theorem unexpected_error_exits_process_witness:
  "collect_wildcard_record (w_ns_ip_list (example_world ''a.com''))
     (w_queries (example_world ''a.com'')) = Some (Exited 1)
   \<and> run example_is_public example_is_similar example_cfg example_world [''a.com'', ''b.com'']
     = Some (Exited 1)"
proof -
  have 1: "detect_wildcard (w_dns (example_world ''a.com'')) (w_http (example_world ''a.com''))
             example_is_similar (w_tokens (example_world ''a.com'')) ''a.com'' = Inr True"
    by (simp add: example_world_def example_detect_a)
  have 2: "w_ns_ip_list (example_world ''a.com'') \<noteq> []" by (simp add: example_world_def)
  have 3: "collect_wildcard_record (w_ns_ip_list (example_world ''a.com'')) [] = None"
    by (simp add: example_world_def collect_wildcard_record_def collect_loop.simps)
  have 4: "w_queries (example_world ''a.com'') = [] @ QUnexpected # []"
    by (simp add: example_world_def)
  have 5: "run_domains example_is_public example_is_similar example_cfg example_world [] []
             = Some (Returned [])" by simp
  from unexpected_error_exits_process [OF 1 2 3 4 5, of "[''b.com'']"]
  show ?thesis by simp
qed

text \<open>
  Claim C5 as stated fails: with the unexpected error at the first domain the run ends
  with exit status 1 and the second domain, which alone yields \<open>www.b.com\<close>, is never
  processed.
\<close>

theorem run_stops_at_unexpected_error:
  "run example_is_public example_is_similar example_cfg example_world [''a.com'', ''b.com'']
     = Some (Exited 1)
   \<and> run example_is_public example_is_similar example_cfg example_world [''b.com'']
     = Some (Returned [''www.b.com''])"
proof -
  have a: "main example_is_public example_is_similar example_cfg (example_world ''a.com'') ''a.com''
             = Some (Exited 1)"
    by (simp add: main_def example_world_def example_detect_a collect_wildcard_record_def
          collect_loop.simps)
  have v: "is_valid_subdomain example_cfg ''9.9.9.9'' 300 (Some 1) [] (Some 0) = Inr (1, ''OK'')"
    by (simp add: is_valid_subdomain_def check_ip_times_def example_cfg_def)
  have b: "main example_is_public example_is_similar example_cfg (example_world ''b.com'') ''b.com''
             = Some (Returned [''www.b.com''])"
    by (simp add: main_def example_world_def example_detect_b stat_ip_times_def
          deal_output_def gen_result_infos_def v)
  show ?thesis using a b by (simp add: run_def)
qed

section \<open>Properties of result processing\<close>

lemma is_valid_subdomain_flag:
  "is_valid_subdomain cfg ip ttl num wc_ips wc_ttl = Inr (flag, reason) \<Longrightarrow>
     (flag \<noteq> 0) = ((flag, reason) = (1, ''OK''))"
  by (auto simp: is_valid_subdomain_def split: if_splits option.splits)

lemma answers_loop_Inr:
  "answers_loop ip_is_public cfg ip_times wc_ips wc_ttl as v = Inr v' \<Longrightarrow>
     v_have_a_record v' = (v_have_a_record v \<or> (\<exists>a \<in> set as. a_type a = ''A''))
   \<and> list_all (\<lambda>flag. flag \<noteq> 0) (v_is_valid_flags v') =
       (list_all (\<lambda>flag. flag \<noteq> 0) (v_is_valid_flags v)
        \<and> (\<forall>a \<in> set as. a_type a = ''A'' \<longrightarrow>
              is_valid_subdomain cfg (a_data a) (a_ttl a) (ip_times (a_data a)) wc_ips wc_ttl
                = Inr (1, ''OK'')))
   \<and> v_ips v' = v_ips v @ map a_data (filter (\<lambda>a. a_type a = ''A'') as)
   \<and> v_ttls v' = v_ttls v @ map a_ttl (filter (\<lambda>a. a_type a = ''A'') as)"
proof (induction as arbitrary: v)
  case Nil
  then show ?case by simp
next
  case (Cons a as)
  show ?case
  proof (cases "a_type a = ''A''")
    case False
    with Cons.prems have "answers_loop ip_is_public cfg ip_times wc_ips wc_ttl as v = Inr v'"
      by simp
    from Cons.IH [OF this] False show ?thesis by simp
  next
    case True
    with Cons.prems obtain flag reason where
      v: "is_valid_subdomain cfg (a_data a) (a_ttl a) (ip_times (a_data a)) wc_ips wc_ttl
            = Inr (flag, reason)"
      by (auto split: sum.splits)
    let ?v1 = "\<lparr>v_reason = Some reason,
                v_cname = v_cname v @ [butlast (a_name a)],
                v_ips = v_ips v @ [a_data a],
                v_public = v_public v @ [ip_is_public (a_data a)],
                v_times = v_times v @ [ip_times (a_data a)],
                v_ttls = v_ttls v @ [a_ttl a],
                v_is_valid_flags = v_is_valid_flags v @ [flag],
                v_have_a_record = True\<rparr>"
    from Cons.prems True v
    have "answers_loop ip_is_public cfg ip_times wc_ips wc_ttl as ?v1 = Inr v'" by simp
    from Cons.IH [OF this] True v is_valid_subdomain_flag [OF v]
    show ?thesis by auto
  qed
qed

lemma answers_loop_Inl:
  "answers_loop ip_is_public cfg ip_times wc_ips wc_ttl as v = Inl e \<Longrightarrow>
     \<exists>a \<in> set as. a_type a = ''A'' \<and>
        is_valid_subdomain cfg (a_data a) (a_ttl a) (ip_times (a_data a)) wc_ips wc_ttl = Inl e"
proof (induction as arbitrary: v)
  case Nil
  then show ?case by simp
next
  case (Cons a as)
  then show ?case by (fastforce split: if_splits sum.splits)
qed

lemma answers_loop_reason:
  "answers_loop ip_is_public cfg ip_times wc_ips wc_ttl as v = Inr v' \<Longrightarrow>
   \<forall>a \<in> set as. a_type a = ''A'' \<longrightarrow>
      is_valid_subdomain cfg (a_data a) (a_ttl a) (ip_times (a_data a)) wc_ips wc_ttl
        = Inr (1, ''OK'') \<Longrightarrow>
   v_reason v' = (if \<exists>a \<in> set as. a_type a = ''A'' then Some ''OK'' else v_reason v)"
proof (induction as arbitrary: v)
  case Nil
  then show ?case by simp
next
  case (Cons a as)
  show ?case
  proof (cases "a_type a = ''A''")
    case False
    with Cons.prems have "answers_loop ip_is_public cfg ip_times wc_ips wc_ttl as v = Inr v'"
      by simp
    from Cons.IH [OF this] Cons.prems(2) False show ?thesis by simp
  next
    case True
    with Cons.prems(2)
    have v: "is_valid_subdomain cfg (a_data a) (a_ttl a) (ip_times (a_data a)) wc_ips wc_ttl
            = Inr (1, ''OK'')" by simp
    let ?v1 = "\<lparr>v_reason = Some ''OK'',
                v_cname = v_cname v @ [butlast (a_name a)],
                v_ips = v_ips v @ [a_data a],
                v_public = v_public v @ [ip_is_public (a_data a)],
                v_times = v_times v @ [ip_times (a_data a)],
                v_ttls = v_ttls v @ [a_ttl a],
                v_is_valid_flags = v_is_valid_flags v @ [1],
                v_have_a_record = True\<rparr>"
    from Cons.prems(1) True v
    have "answers_loop ip_is_public cfg ip_times wc_ips wc_ttl as ?v1 = Inr v'" by simp
    from Cons.IH [OF this] Cons.prems(2) True
    show ?thesis by simp
  qed
qed

text \<open>
  Claim C2. For a record that reaches \<open>gen_result_infos\<close> (its name and its answers are
  present), an entry is stored under the name without its last character, and the name is
  appended to the accepted list, exactly when the record has at least one answer of type A
  and every answer of type A passes validation, that is, \<open>is_valid_subdomain\<close> returns
  (1, OK) for it; the entry then has the reason OK and the addresses and TTLs of the A
  answers. Otherwise nothing is stored: the mapping and the list come back unchanged, or
  the call raises (when a validation raises). In particular, when every validation returns
  and one A answer is invalid, as in a record with one valid and one invalid A answer, the
  mapping and the list come back unchanged.
\<close>

theorem gen_result_infos_all_or_nothing:
  assumes "i_name its = Some n" and "i_data its = Some (Some answers)"
  shows "((\<exists>a \<in> set answers. a_type a = ''A'') \<and>
          (\<forall>a \<in> set answers. a_type a = ''A'' \<longrightarrow>
              is_valid_subdomain cfg (a_data a) (a_ttl a) (ip_times (a_data a)) wc_ips wc_ttl
                = Inr (1, ''OK''))
          \<longrightarrow> (\<exists>inf. gen_result_infos ip_is_public cfg its infos subdomains ip_times wc_ips wc_ttl
                       = Inr (infos(butlast n \<mapsto> inf), subdomains @ [butlast n])
                     \<and> info_reason inf = Some ''OK''
                     \<and> info_ip inf = map a_data (filter (\<lambda>a. a_type a = ''A'') answers)
                     \<and> info_ttl inf = map a_ttl (filter (\<lambda>a. a_type a = ''A'') answers)))
       \<and> (\<not> ((\<exists>a \<in> set answers. a_type a = ''A'') \<and>
              (\<forall>a \<in> set answers. a_type a = ''A'' \<longrightarrow>
                  is_valid_subdomain cfg (a_data a) (a_ttl a) (ip_times (a_data a)) wc_ips wc_ttl
                    = Inr (1, ''OK'')))
          \<longrightarrow> gen_result_infos ip_is_public cfg its infos subdomains ip_times wc_ips wc_ttl
                = Inr (infos, subdomains)
              \<or> (\<exists>e. gen_result_infos ip_is_public cfg its infos subdomains ip_times wc_ips wc_ttl
                      = Inl e))
       \<and> ((\<forall>a \<in> set answers. a_type a = ''A'' \<longrightarrow>
              (\<exists>verdict. is_valid_subdomain cfg (a_data a) (a_ttl a) (ip_times (a_data a))
                            wc_ips wc_ttl = Inr verdict))
           \<and> (\<exists>a \<in> set answers. a_type a = ''A'' \<and>
                 is_valid_subdomain cfg (a_data a) (a_ttl a) (ip_times (a_data a)) wc_ips wc_ttl
                   \<noteq> Inr (1, ''OK''))
          \<longrightarrow> gen_result_infos ip_is_public cfg its infos subdomains ip_times wc_ips wc_ttl
                = Inr (infos, subdomains))"
proof -
  let ?v0 = "\<lparr>v_reason = i_status its, v_cname = [], v_ips = [], v_public = [],
               v_times = [], v_ttls = [], v_is_valid_flags = [], v_have_a_record = False\<rparr>"
  let ?acc = "(\<exists>a \<in> set answers. a_type a = ''A'') \<and>
              (\<forall>a \<in> set answers. a_type a = ''A'' \<longrightarrow>
                  is_valid_subdomain cfg (a_data a) (a_ttl a) (ip_times (a_data a)) wc_ips wc_ttl
                    = Inr (1, ''OK''))"
  let ?ret = "\<forall>a \<in> set answers. a_type a = ''A'' \<longrightarrow>
              (\<exists>verdict. is_valid_subdomain cfg (a_data a) (a_ttl a) (ip_times (a_data a))
                            wc_ips wc_ttl = Inr verdict)"
  show ?thesis
  proof (cases "answers_loop ip_is_public cfg ip_times wc_ips wc_ttl answers ?v0")
    case (Inl e)
    from answers_loop_Inl [OF Inl] obtain a where
      a: "a \<in> set answers" "a_type a = ''A''"
         "is_valid_subdomain cfg (a_data a) (a_ttl a) (ip_times (a_data a)) wc_ips wc_ttl = Inl e"
      by blast
    from a have na: "\<not> ?acc" by auto
    from a have nr: "\<not> ?ret" by auto
    have "gen_result_infos ip_is_public cfg its infos subdomains ip_times wc_ips wc_ttl
            = Inl e"
      using assms Inl by (simp add: gen_result_infos_def)
    with na nr show ?thesis by blast
  next
    case (Inr v')
    note l = answers_loop_Inr [OF Inr]
    show ?thesis
    proof (cases ?acc)
      case True
      with l have c: "v_have_a_record v' \<and> list_all (\<lambda>flag. flag \<noteq> 0) (v_is_valid_flags v')"
        by simp
      from True answers_loop_reason [OF Inr] have r: "v_reason v' = Some ''OK''" by simp
      let ?inf = "\<lparr>info_resolve = 1, info_reason = v_reason v',
                    info_ttl = v_ttls v', info_cname = v_cname v',
                    info_ip = v_ips v', info_public = v_public v',
                    info_times = v_times v', info_resolver = i_resolver its\<rparr>"
      from assms Inr c
      have g: "gen_result_infos ip_is_public cfg its infos subdomains ip_times wc_ips wc_ttl
                 = Inr (infos(butlast n \<mapsto> ?inf), subdomains @ [butlast n])"
        by (simp add: gen_result_infos_def)
      have p: "info_reason ?inf = Some ''OK''
               \<and> info_ip ?inf = map a_data (filter (\<lambda>a. a_type a = ''A'') answers)
               \<and> info_ttl ?inf = map a_ttl (filter (\<lambda>a. a_type a = ''A'') answers)"
        using r l by simp
      from g p have "\<exists>inf. gen_result_infos ip_is_public cfg its infos subdomains ip_times
                             wc_ips wc_ttl
                       = Inr (infos(butlast n \<mapsto> inf), subdomains @ [butlast n])
                     \<and> info_reason inf = Some ''OK''
                     \<and> info_ip inf = map a_data (filter (\<lambda>a. a_type a = ''A'') answers)
                     \<and> info_ttl inf = map a_ttl (filter (\<lambda>a. a_type a = ''A'') answers)"
        by (intro exI [of _ ?inf] conjI) simp_all
      with True show ?thesis by blast
    next
      case False
      with l have c: "\<not> (v_have_a_record v' \<and> list_all (\<lambda>flag. flag \<noteq> 0) (v_is_valid_flags v'))"
        by simp
      from assms Inr c have "gen_result_infos ip_is_public cfg its infos subdomains ip_times
                               wc_ips wc_ttl = Inr (infos, subdomains)"
        by (simp add: gen_result_infos_def)
      with False show ?thesis by blast
    qed
  qed
qed

theorem gen_result_infos_all_or_nothing_witness:
  "(\<exists>inf. gen_result_infos example_is_public example_cfg example_items_ok Map.empty []
             example_ip_times [] (Some 0)
           = Inr (Map.empty(''www.b.com'' \<mapsto> inf), [''www.b.com''])
         \<and> info_reason inf = Some ''OK'' \<and> info_ip inf = [''9.9.9.9'']
         \<and> info_ttl inf = [300])
   \<and> gen_result_infos example_is_public example_cfg example_items_mixed Map.empty []
        example_ip_times [] (Some 0) = Inr (Map.empty, [])"
proof -
  have 1: "i_name example_items_ok = Some ''www.b.com.''"
    by (simp add: example_items_ok_def)
  have 2: "i_data example_items_ok = Some (Some [example_answer_ok])"
    by (simp add: example_items_ok_def)
  have 3: "i_name example_items_mixed = Some ''www.b.com.''"
    by (simp add: example_items_mixed_def)
  have 4: "i_data example_items_mixed
             = Some (Some [example_answer_ok, example_answer_blacklisted])"
    by (simp add: example_items_mixed_def)
  have v: "is_valid_subdomain example_cfg ''9.9.9.9'' 300 (Some 1) [] (Some 0) = Inr (1, ''OK'')"
    by (simp add: is_valid_subdomain_def check_ip_times_def example_cfg_def)
  have b: "is_valid_subdomain example_cfg ''0.0.0.0'' 300 (Some 1) [] (Some 0)
             = Inr (0, ''IP blacklist'')"
    by (simp add: is_valid_subdomain_def example_cfg_def)
  from gen_result_infos_all_or_nothing [OF 1 2, of example_cfg example_ip_times "[]" "Some 0"
      example_is_public Map.empty "[]"]
    gen_result_infos_all_or_nothing [OF 3 4, of example_cfg example_ip_times "[]" "Some 0"
      example_is_public Map.empty "[]"] v b
  show ?thesis
    by (simp add: example_answer_ok_def example_answer_blacklisted_def example_ip_times_def)
qed












section \<open>Properties of wildcard detection\<close>

text \<open>
  The detector on three distinct probes, case by case: \<open>False\<close> when a probe does not
  resolve; otherwise \<open>True\<close> when a fetch gives no response, a response that is not ok,
  or an empty text; otherwise the disjunction of the three comparisons.
\<close>

lemma detect_wildcard_three_probes:
  assumes "gen_random_subdomains domain 3 tokens = [s1, s2, s3]"
  shows "detect_wildcard dns http is_similar tokens domain =
     (if \<not> (query_a_record (dns s1) \<and> query_a_record (dns s2) \<and> query_a_record (dns s3))
      then Inr False
      else if \<exists>s \<in> {s1, s2, s3}. request_entry http s = None \<or> request_entry http s = Some []
      then Inr True
      else Inr (is_similar (request_entry http s1) (request_entry http s2)
                \<or> is_similar (request_entry http s1) (request_entry http s3)
                \<or> is_similar (request_entry http s2) (request_entry http s3)))"
  using assms
  by (simp add: detect_wildcard_def all_resolve_success_def all_request_success_def Let_def)

text \<open>
  Claim C6, at an input where the code departs from it. The three probes resolve, the three
  fetches succeed with an ok response, and no two texts are similar, so the claim has
  \<open>False\<close>. The text of the first response is empty; \<open>all(result)\<close> takes the empty
  text for a failed request, and the detector returns \<open>True\<close>.
\<close>

theorem detect_wildcard_empty_body:
  "request_entry example_http_empty_body ''0a0a0a0a.c.com'' = Some ''''
   \<and> request_entry example_http_empty_body ''0b0b0b0b.c.com'' = Some ''<html>shop</html>''
   \<and> request_entry example_http_empty_body ''0c0c0c0c.c.com'' = Some ''<html>blog</html>''
   \<and> all_resolve_success wildcard_dns
         (gen_random_subdomains ''c.com'' 3 [''0a0a0a0a'', ''0b0b0b0b'', ''0c0c0c0c''])
   \<and> detect_wildcard wildcard_dns example_http_empty_body example_is_similar
         [''0a0a0a0a'', ''0b0b0b0b'', ''0c0c0c0c''] ''c.com'' = Inr True"
  by (simp add: detect_wildcard_def gen_random_subdomains_def all_resolve_success_def
        all_request_success_def request_entry_def wildcard_dns_def example_http_empty_body_def
        Let_def)

section \<open>Properties of dictionary generation\<close>

lemma lower_char_idem: "lower_char (lower_char c) = lower_char c"
  by (simp add: lower_char_def)

lemma py_lower_idem: "py_lower (py_lower s) = py_lower s"
  by (simp add: py_lower_def lower_char_idem)

lemma fuzz_loop_set:
  "set (fuzz_loop expression strings subdomains) =
     set subdomains \<union>
     {replace_star expression (py_lower s) | s. s \<in> set strings \<and> py_isalnum (py_lower s)}"
  by (induction strings arbitrary: subdomains) (auto simp: Let_def)

lemma fuzz_loop_distinct:
  "distinct subdomains \<Longrightarrow> distinct (fuzz_loop expression strings subdomains)"
  by (induction strings arbitrary: subdomains) (auto simp: Let_def)

lemma fuzz_a_z:
  "fuzz_loop ''m.*.d.com'' (map (\<lambda>c. [c]) ''abcdefghijklmnopqrstuvwxyz'') [] =
     rev (map (\<lambda>c. ''m.'' @ [c] @ ''.d.com'') ''abcdefghijklmnopqrstuvwxyz'')"
  by (simp add: py_lower_def lower_char_def py_isalnum_def alnum_char_def replace_star_def
        Let_def)

text \<open>
  Claim C8. With the rule \<open>[a-z]\<close>, whose enumeration is the 26 lower-case letters, the
  template \<open>m.*.d.com\<close> and no fuzz word list, the generated set has exactly 26 members,
  the names \<open>m.c.d.com\<close> for the letters \<open>c\<close>. For every rule and template, each
  generated name is the template with its \<open>*\<close> replaced by the lower-cased form of an
  enumerated string, and that form is alphanumeric and lower-case: the strings that are
  not alphanumeric are left out before the substitution.
\<close>

theorem gen_fuzz_subdomains_a_z:
  "(exrex_generate ''[a-z]'' = map (\<lambda>c. [c]) ''abcdefghijklmnopqrstuvwxyz'' \<longrightarrow>
      length (gen_fuzz_subdomains exrex_generate is_subname ''m.*.d.com'' (Some ''[a-z]'') None)
        = 26
    \<and> distinct (gen_fuzz_subdomains exrex_generate is_subname ''m.*.d.com'' (Some ''[a-z]'') None)
    \<and> set (gen_fuzz_subdomains exrex_generate is_subname ''m.*.d.com'' (Some ''[a-z]'') None)
        = (\<lambda>c. ''m.'' @ [c] @ ''.d.com'') ` set ''abcdefghijklmnopqrstuvwxyz'')
   \<and> (\<forall>x \<in> set (gen_fuzz_subdomains exrex_generate is_subname expression (Some rule) None).
        \<exists>s \<in> set (exrex_generate rule).
          x = replace_star expression (py_lower s) \<and> py_isalnum (py_lower s)
          \<and> py_lower (py_lower s) = py_lower s)"
proof (intro conjI impI ballI)
  assume g: "exrex_generate ''[a-z]'' = map (\<lambda>c. [c]) ''abcdefghijklmnopqrstuvwxyz''"
  have r: "gen_fuzz_subdomains exrex_generate is_subname ''m.*.d.com'' (Some ''[a-z]'') None
             = rev (map (\<lambda>c. ''m.'' @ [c] @ ''.d.com'') ''abcdefghijklmnopqrstuvwxyz'')"
    unfolding gen_fuzz_subdomains_def using g fuzz_a_z by simp
  show "length (gen_fuzz_subdomains exrex_generate is_subname ''m.*.d.com'' (Some ''[a-z]'') None)
        = 26"
    unfolding r by simp
  show "distinct (gen_fuzz_subdomains exrex_generate is_subname ''m.*.d.com'' (Some ''[a-z]'') None)"
    unfolding gen_fuzz_subdomains_def by (simp add: fuzz_loop_distinct)
  show "set (gen_fuzz_subdomains exrex_generate is_subname ''m.*.d.com'' (Some ''[a-z]'') None)
        = (\<lambda>c. ''m.'' @ [c] @ ''.d.com'') ` set ''abcdefghijklmnopqrstuvwxyz''"
    unfolding r set_rev set_map ..
next
  fix x
  assume "x \<in> set (gen_fuzz_subdomains exrex_generate is_subname expression (Some rule) None)"
  then have "x \<in> {replace_star expression (py_lower s) | s.
                    s \<in> set (exrex_generate rule) \<and> py_isalnum (py_lower s)}"
    by (auto simp: gen_fuzz_subdomains_def fuzz_loop_set split: if_splits)
  then show "\<exists>s \<in> set (exrex_generate rule).
          x = replace_star expression (py_lower s) \<and> py_isalnum (py_lower s)
          \<and> py_lower (py_lower s) = py_lower s"
    using py_lower_idem by blast
qed

theorem gen_fuzz_subdomains_a_z_witness:
  "length (gen_fuzz_subdomains example_exrex example_is_subname ''m.*.d.com'' (Some ''[a-z]'')
             None) = 26
   \<and> ''m.q.d.com'' \<in> set (gen_fuzz_subdomains example_exrex example_is_subname ''m.*.d.com''
                             (Some ''[a-z]'') None)"
proof -
  have g: "example_exrex ''[a-z]'' = map (\<lambda>c. [c]) ''abcdefghijklmnopqrstuvwxyz''"
    by (simp add: example_exrex_def)
  from gen_fuzz_subdomains_a_z [of example_exrex example_is_subname] g
  show ?thesis by simp
qed

end
